theory Spec2Isabelle
  imports Complex_Main "HOL-Library.Product_Lexorder"
begin

text \<open>
  The expense tracker's services in \<open>services/ocrService.js\<close>: the receipt parser
  \<open>OCRService.parseReceiptData\<close>, the keyword categorizer \<open>ExpenseCategorizer\<close>, the
  z-score test \<open>AnomalyDetector.detectAnomalies\<close> and the linear forecast
  \<open>ExpenseForecaster.forecastExpenses\<close>. Each function is a total HOL function of its
  arguments and of what it reads from outside: the clock, the expense collection, the
  Unicode case mapping and the engine's bound on the arguments of a call. Optical
  character recognition and logging are not modelled.
\<close>

section \<open>JavaScript values\<close>

text \<open>
  A JavaScript string is a sequence of UTF-16 code units; \<open>length\<close> counts code units.
  A code unit is modelled as a natural number (nothing below depends on the bound
  \<open>65536\<close>), which makes room for the currency symbols of the receipt patterns.
\<close>

type_synonym jsstring = "nat list"

definition str :: "string \<Rightarrow> jsstring" where
  "str s = map of_char s"

text \<open>
  A JavaScript number is an IEEE double. The model keeps the special values that decide
  the control flow of the services: \<open>NaN\<close> and the infinities, as produced by a division
  by zero and by a decimal literal beyond the range of the doubles. A finite value is an
  exact real number: the rounding of finite arithmetic is not modelled, so a statement
  about computed sums, quotients and roots is one about the code only where these are
  exact in doubles or where it leaves a margin; the properties below say which. The sign
  of zero is not modelled either; the only zero divisors of the services are a length and
  a square root, both \<open>+0\<close>.
\<close>

datatype jsnum = Fin real | PInf | NInf | NaN

text \<open>
  Reading a decimal numeral that is not negative as a double: from
  \<open>2^1024 - 2^970\<close> on (about \<open>1.8e308\<close>) the nearest double is \<open>Infinity\<close>. Below
  that the numeral is kept as it is; rounding to the nearest double is monotone and is
  not modelled.
\<close>

definition double_overflow :: real where
  "double_overflow = 2 ^ 1024 - 2 ^ 970"

definition to_double :: "real \<Rightarrow> jsnum" where
  "to_double v = (if v < double_overflow then Fin v else PInf)"

text \<open>The exceptions of the language that the services can meet.\<close>

datatype js_error = RangeError

fun js_div :: "real \<Rightarrow> real \<Rightarrow> jsnum" where
  "js_div a b =
     (if b \<noteq> 0 then Fin (a / b)
      else if a = 0 then NaN
      else if 0 < a then PInf else NInf)"

fun js_add :: "jsnum \<Rightarrow> real \<Rightarrow> jsnum" where
  "js_add (Fin a) b = Fin (a + b)"
| "js_add PInf b = PInf"
| "js_add NInf b = NInf"
| "js_add NaN b = NaN"

fun js_mul :: "jsnum \<Rightarrow> real \<Rightarrow> jsnum" where
  "js_mul (Fin a) b = Fin (a * b)"
| "js_mul NaN b = NaN"
| "js_mul PInf b = (if b = 0 then NaN else if 0 < b then PInf else NInf)"
| "js_mul NInf b = (if b = 0 then NaN else if 0 < b then NInf else PInf)"

fun js_abs :: "jsnum \<Rightarrow> jsnum" where
  "js_abs (Fin a) = Fin \<bar>a\<bar>"
| "js_abs PInf = PInf"
| "js_abs NInf = PInf"
| "js_abs NaN = NaN"

text \<open>The comparison \<open>a > b\<close>: false as soon as one side is \<open>NaN\<close>.\<close>

fun js_gt :: "jsnum \<Rightarrow> jsnum \<Rightarrow> bool" where
  "js_gt NaN b = False"
| "js_gt a NaN = False"
| "js_gt (Fin a) (Fin b) = (b < a)"
| "js_gt (Fin a) PInf = False"
| "js_gt (Fin a) NInf = True"
| "js_gt PInf PInf = False"
| "js_gt PInf b = True"
| "js_gt NInf b = False"

definition js_lt :: "jsnum \<Rightarrow> jsnum \<Rightarrow> bool" where
  "js_lt a b = js_gt b a"

text \<open>\<open>Math.min\<close> of two numbers.\<close>

fun Math_min :: "jsnum \<Rightarrow> jsnum \<Rightarrow> jsnum" where
  "Math_min NaN b = NaN"
| "Math_min a NaN = NaN"
| "Math_min a b = (if js_lt b a then b else a)"

text \<open>
  \<open>Math.max\<close> of an argument list: \<open>-Infinity\<close> for no argument, \<open>NaN\<close> as soon
  as one argument is \<open>NaN\<close>.
\<close>

fun js_max :: "jsnum \<Rightarrow> jsnum \<Rightarrow> jsnum" where
  "js_max NaN b = NaN"
| "js_max a NaN = NaN"
| "js_max a b = (if js_gt b a then b else a)"

definition Math_max :: "jsnum list \<Rightarrow> jsnum" where
  "Math_max xs = fold (\<lambda>x m. js_max m x) xs NInf"

text \<open>
  \<open>Math.max(...xs)\<close> passes every element of the array as an argument of one call.
  ECMAScript sets no bound on the number of arguments, an engine does: the call throws a
  \<open>RangeError\<close> when the array is longer than that bound, of the order of a hundred
  thousand elements in V8, the engine of Node.js. The bound is the parameter \<open>max_args\<close>.
\<close>

definition Math_max_spread :: "nat \<Rightarrow> jsnum list \<Rightarrow> js_error + jsnum" where
  "Math_max_spread max_args xs =
     (if length xs > max_args then Inl RangeError else Inr (Math_max xs))"

subsection \<open>Character classes\<close>

definition is_digit :: "nat \<Rightarrow> bool" where
  "is_digit c = (48 \<le> c \<and> c \<le> 57)"

definition is_upper :: "nat \<Rightarrow> bool" where
  "is_upper c = (65 \<le> c \<and> c \<le> 90)"

definition is_lower :: "nat \<Rightarrow> bool" where
  "is_lower c = (97 \<le> c \<and> c \<le> 122)"

text \<open>The class \<open>\w\<close> is \<open>[A-Za-z0-9_]\<close>; \<open>\W\<close> is its complement.\<close>

definition is_word :: "nat \<Rightarrow> bool" where
  "is_word c = (is_digit c \<or> is_upper c \<or> is_lower c \<or> c = 95)"

text \<open>
  The class \<open>\s\<close>, which is also what \<open>trim\<close> removes: the white space and line
  terminator code points of ECMAScript.
\<close>

definition is_space :: "nat \<Rightarrow> bool" where
  "is_space c =
     ((9 \<le> c \<and> c \<le> 13) \<or> c = 32 \<or> c = 160 \<or> c = 5760 \<or> (8192 \<le> c \<and> c \<le> 8202)
      \<or> c = 8232 \<or> c = 8233 \<or> c = 8239 \<or> c = 8287 \<or> c = 12288 \<or> c = 65279)"

text \<open>
  \<open>toLowerCase\<close> follows the Unicode case mapping, which has no context rule for the
  code units below: the letters \<open>A\<close> to \<open>Z\<close> are lowered, the capital I with dot above
  (\<open>U+0130\<close>, 304) becomes \<open>i\<close> and the combining dot above (\<open>U+0307\<close>, 775), and
  the other ASCII code units and the combining dot stay. On a string with any other code
  unit the mapping is the parameter \<open>ulc\<close>, about which nothing is assumed.
\<close>

definition plain_case :: "nat \<Rightarrow> bool" where
  "plain_case c = (c < 128 \<or> c = 304 \<or> c = 775)"

definition lower_unit :: "nat \<Rightarrow> nat list" where
  "lower_unit c =
     (if is_upper c then [c + 32]
      else if c = 304 then [105, 775]
      else [c])"

definition toLowerCase :: "(jsstring \<Rightarrow> jsstring) \<Rightarrow> jsstring \<Rightarrow> jsstring" where
  "toLowerCase ulc s = (if list_all plain_case s then concat (map lower_unit s) else ulc s)"

section \<open>ExpenseCategorizer\<close>

definition categories :: "(jsstring \<times> jsstring list) list" where
  "categories =
    [(str ''food'', map str [''restaurant'', ''cafe'', ''food'', ''dining'', ''lunch'',
        ''dinner'', ''breakfast'', ''coffee'', ''pizza'', ''burger'', ''sushi'', ''chinese'',
        ''indian'', ''mexican'', ''grocery'', ''supermarket'', ''market'']),
     (str ''transport'', map str [''uber'', ''lyft'', ''taxi'', ''gas'', ''fuel'', ''parking'',
        ''metro'', ''bus'', ''train'', ''flight'', ''airline'', ''car'', ''vehicle'',
        ''transportation'']),
     (str ''utilities'', map str [''electric'', ''water'', ''gas'', ''internet'', ''phone'',
        ''cable'', ''utility'', ''bill'', ''payment'', ''service'']),
     (str ''entertainment'', map str [''movie'', ''cinema'', ''theater'', ''concert'', ''show'',
        ''game'', ''gaming'', ''netflix'', ''spotify'', ''subscription'', ''entertainment'',
        ''fun'']),
     (str ''shopping'', map str [''amazon'', ''store'', ''shop'', ''mall'', ''clothing'',
        ''clothes'', ''shoes'', ''electronics'', ''book'', ''purchase'', ''buy'']),
     (str ''healthcare'', map str [''doctor'', ''hospital'', ''clinic'', ''pharmacy'',
        ''medicine'', ''medical'', ''health'', ''dental'', ''vision'', ''insurance'']),
     (str ''education'', map str [''school'', ''university'', ''college'', ''course'', ''book'',
        ''education'', ''learning'', ''tuition'', ''student'']),
     (str ''other'', [])]"

text \<open>
  \<open>split(/\W+/)\<close>: the pieces between the maximal runs of non-word code units, with an
  empty first piece when the text starts with such a run and an empty last piece when it
  ends with one. The first argument is the piece being read.
\<close>

function split_nonword :: "jsstring \<Rightarrow> jsstring \<Rightarrow> jsstring list" where
  "split_nonword cur [] = [cur]"
| "split_nonword cur (c # cs) =
     (if is_word c then split_nonword (cur @ [c]) cs
      else cur # split_nonword [] (dropWhile (\<lambda>d. \<not> is_word d) cs))"
  by pat_completeness auto
termination
  by (relation "measure (\<lambda>(cur, s). length s)") (auto simp: length_dropWhile_le less_Suc_eq_le)

definition tfidf_words :: "(jsstring \<Rightarrow> jsstring) \<Rightarrow> jsstring \<Rightarrow> jsstring list" where
  "tfidf_words ulc text = filter (\<lambda>word. length word > 2) (split_nonword [] (toLowerCase ulc text))"

text \<open>
  \<open>categorize\<close> calls \<open>calculateTFIDF\<close> with the keys of the table only. For another
  key the keyword list is empty here; the names that every JavaScript object inherits
  (such as \<open>constructor\<close>), on which the source would throw, are not modelled.
\<close>

definition calculateTFIDF :: "(jsstring \<Rightarrow> jsstring) \<Rightarrow> jsstring \<Rightarrow> jsstring \<Rightarrow> jsnum" where
  "calculateTFIDF ulc text category =
     (let words = tfidf_words ulc text;
          categoryKeywords = (case map_of categories category of Some ks \<Rightarrow> ks | None \<Rightarrow> []);
          score = fold (\<lambda>word score. if word \<in> set categoryKeywords then score + 1 else score)
                    words (0::nat)
      in js_div (real score) (real (length words)))"

record category_score =
  cs_category :: jsstring
  cs_confidence :: jsnum

text \<open>
  One round of the loop over the entries of the category table. The scores are exact
  here. In doubles a quotient and the bonus 0.1 are rounded, so that \<open>2/10 + 0.1\<close> is
  above \<open>3/10\<close>: which of two categories with such scores wins can differ from the
  model. The properties below concern texts whose scores are 0 or \<open>NaN\<close>, where nothing
  is rounded.
\<close>

definition categorize_step ::
  "(jsstring \<Rightarrow> jsstring) \<Rightarrow> jsstring \<Rightarrow> real \<Rightarrow> jsstring \<times> jsstring list \<Rightarrow>
   jsstring \<times> jsnum \<Rightarrow> jsstring \<times> jsnum" where
  "categorize_step ulc text amount entry best =
     (let cat = fst entry in
      if cat = str ''other'' then best
      else
        let score = calculateTFIDF ulc text cat;
            score = (if cat = str ''food'' \<and> amount < 100 then js_add score (1/10) else score);
            score = (if cat = str ''transport'' \<and> amount < 50 then js_add score (1/10) else score);
            score = (if cat = str ''utilities'' \<and> amount > 50 then js_add score (1/10) else score)
        in if js_gt score (snd best) then (cat, score) else best)"

text \<open>The best category and the best score when the loop is over.\<close>

definition best_match ::
  "(jsstring \<Rightarrow> jsstring) \<Rightarrow> jsstring \<Rightarrow> real \<Rightarrow> jsstring \<Rightarrow> jsstring \<times> jsnum" where
  "best_match ulc expenseName amount notes =
     (let text = toLowerCase ulc (expenseName @ str '' '' @ notes)
      in fold (categorize_step ulc text amount) categories (str ''other'', Fin 0))"

text \<open>The amount bands of the fallback.\<close>

definition amount_band :: "real \<Rightarrow> jsstring" where
  "amount_band amount =
     (if amount < 20 then str ''food''
      else if amount < 100 then str ''shopping''
      else if amount < 500 then str ''utilities''
      else str ''other'')"

definition categorize ::
  "(jsstring \<Rightarrow> jsstring) \<Rightarrow> jsstring \<Rightarrow> real \<Rightarrow> jsstring \<Rightarrow> category_score" where
  "categorize ulc expenseName amount notes =
     (let (bestCategory, bestScore) = best_match ulc expenseName amount notes;
          bestCategory = (if js_lt bestScore (Fin (1/10)) then amount_band amount else bestCategory)
      in \<lparr>cs_category = bestCategory, cs_confidence = Math_min (js_mul bestScore 2) (Fin 1)\<rparr>)"

section \<open>OCRService: the receipt parser\<close>

text \<open>\<open>split('\n')\<close>; the first argument is the piece being read.\<close>

fun split_newline :: "jsstring \<Rightarrow> jsstring \<Rightarrow> jsstring list" where
  "split_newline cur [] = [cur]"
| "split_newline cur (c # cs) =
     (if c = 10 then cur # split_newline [] cs else split_newline (cur @ [c]) cs)"

definition trim :: "jsstring \<Rightarrow> jsstring" where
  "trim s = rev (dropWhile is_space (rev (dropWhile is_space s)))"

definition receipt_lines :: "jsstring \<Rightarrow> jsstring list" where
  "receipt_lines text = filter (\<lambda>line. length line > 0) (map trim (split_newline [] text))"

subsection \<open>Merchant\<close>

definition businessWords :: "jsstring list" where
  "businessWords = map str [''restaurant'', ''cafe'', ''store'', ''shop'', ''market'',
     ''pharmacy'', ''gas'', ''station'']"

fun includes_str :: "jsstring \<Rightarrow> jsstring \<Rightarrow> bool" where
  "includes_str [] word = (word = [])"
| "includes_str (c # cs) word = (take (length word) (c # cs) = word \<or> includes_str cs word)"

text \<open>
  The loop over the first five lines stops at the first line that names a business or
  has between 6 and 49 code units; \<open>merchant\<close> stays empty when there is none.
\<close>

definition find_merchant :: "(jsstring \<Rightarrow> jsstring) \<Rightarrow> jsstring list \<Rightarrow> jsstring" where
  "find_merchant ulc lines =
     (case List.find
        (\<lambda>line. list_ex (\<lambda>word. includes_str (toLowerCase ulc line) word) businessWords
           \<or> (length line > 5 \<and> length line < 50))
        (take 5 lines) of
        None \<Rightarrow> []
      | Some line \<Rightarrow> line)"

subsection \<open>Amount\<close>

text \<open>The currency symbols of \<open>amountPattern\<close>: dollar, rupee, euro, pound.\<close>

definition is_currency :: "nat \<Rightarrow> bool" where
  "is_currency c = (c = 36 \<or> c = 8377 \<or> c = 8364 \<or> c = 163)"

text \<open>
  \<open>amountPattern\<close> tried at the head of a string: an optional currency symbol, white
  space, one digit or more, an optional dot, digits. Every quantifier is greedy, and none
  has to give back what it took: after a currency symbol that no number follows, the
  retry without the symbol meets the symbol where it needs white space or a digit. The
  result is the matched text and what follows it.
\<close>

definition amountPattern_at :: "jsstring \<Rightarrow> (jsstring \<times> jsstring) option" where
  "amountPattern_at s =
     (let a = (case s of [] \<Rightarrow> [] | c # cs \<Rightarrow> if is_currency c then cs else s);
          b = dropWhile is_space a;
          c = dropWhile is_digit b;
          d = (case c of [] \<Rightarrow> [] | x # xs \<Rightarrow> if x = 46 then xs else c);
          e = dropWhile is_digit d
      in if takeWhile is_digit b = [] then None
         else Some (take (length s - length e) s, e))"

text \<open>
  \<open>line.match(amountPattern)\<close> with the \<open>g\<close> flag: all matches from left to right,
  each search starting where the last match ended. No match is \<open>null\<close> in the source,
  the empty list here.
\<close>

function amountPattern_matches :: "jsstring \<Rightarrow> jsstring list" where
  "amountPattern_matches [] = []"
| "amountPattern_matches (c # cs) =
     (case amountPattern_at (c # cs) of
        None \<Rightarrow> amountPattern_matches cs
      | Some (m, rest) \<Rightarrow> m # amountPattern_matches rest)"
  by pat_completeness auto
termination
proof (relation "measure length")
  show "wf (measure length)" by simp
next
  fix c :: nat and cs
  show "(cs, c # cs) \<in> measure length" by simp
next
  fix c :: nat and cs x2 m rest
  assume some: "amountPattern_at (c # cs) = Some x2" and x2: "(m, rest) = x2"
  define s where "s = c # cs"
  note some = some [folded s_def]
  define a where "a = (case s of [] \<Rightarrow> [] | c # cs \<Rightarrow> if is_currency c then cs else s)"
  define b where "b = dropWhile is_space a"
  define c' where "c' = dropWhile is_digit b"
  define d where "d = (case c' of [] \<Rightarrow> [] | x # xs \<Rightarrow> if x = 46 then xs else c')"
  define e where "e = dropWhile is_digit d"
  have unfolded: "amountPattern_at s =
      (if takeWhile is_digit b = [] then None else Some (take (length s - length e) s, e))"
    unfolding amountPattern_at_def Let_def a_def b_def c'_def d_def e_def by (rule refl)
  from some x2 have nonempty: "takeWhile is_digit b \<noteq> []" and rest: "rest = e"
    unfolding unfolded by (auto split: if_splits)
  have la: "length a \<le> length s" by (simp add: a_def split: list.splits)
  have lb: "length b \<le> length a" by (simp add: b_def length_dropWhile_le)
  have "length (takeWhile is_digit b) + length c' = length b"
    unfolding c'_def by (metis length_append takeWhile_dropWhile_id)
  with nonempty have "length c' < length b"
    by (cases "takeWhile is_digit b") auto
  moreover have "length d \<le> length c'"
    by (simp add: d_def split: list.splits)
  moreover have "length e \<le> length d"
    by (simp add: e_def length_dropWhile_le)
  ultimately have "length e < length s" using la lb by linarith
  then have "length rest < length s" by (simp add: rest)
  then show "(rest, c # cs) \<in> measure length" by (simp add: s_def)
qed

text \<open>
  \<open>parseFloat\<close> on a string of digits and dots, which is all \<open>replace(/[^\d.]/g, '')\<close>
  leaves: the longest prefix that reads as digits, an optional dot and digits, as a
  double; \<open>NaN\<close> when that prefix holds no digit.
\<close>

definition digits_value :: "jsstring \<Rightarrow> nat" where
  "digits_value ds = fold (\<lambda>c n. 10 * n + (c - 48)) ds 0"

definition int_part :: "jsstring \<Rightarrow> jsstring" where
  "int_part s = takeWhile is_digit s"

definition frac_part :: "jsstring \<Rightarrow> jsstring" where
  "frac_part s =
     (case dropWhile is_digit s of
        [] \<Rightarrow> []
      | c # cs \<Rightarrow> if c = 46 then takeWhile is_digit cs else [])"

definition decimal_value :: "jsstring \<Rightarrow> real" where
  "decimal_value s =
     real (digits_value (int_part s))
       + real (digits_value (frac_part s)) / 10 ^ length (frac_part s)"

definition parseFloat :: "jsstring \<Rightarrow> jsnum" where
  "parseFloat s =
     (if int_part s = [] \<and> frac_part s = [] then NaN else to_double (decimal_value s))"

definition digits_and_dots :: "jsstring \<Rightarrow> jsstring" where
  "digits_and_dots m = filter (\<lambda>c. is_digit c \<or> c = 46) m"

definition collect_amounts :: "jsstring list \<Rightarrow> jsnum list" where
  "collect_amounts lines =
     fold (\<lambda>line amounts.
         fold (\<lambda>m amounts.
             let num = parseFloat (digits_and_dots m)
             in if js_gt num (Fin 0) then amounts @ [num] else amounts)
           (amountPattern_matches line) amounts)
       lines []"

subsection \<open>Date\<close>

definition is_sep :: "nat \<Rightarrow> bool" where
  "is_sep c = (c = 47 \<or> c = 45)"

text \<open>
  Groups of digits, each with its least and greatest length, with one separator between
  two groups, tried at the head of a string; the result is the length of the match. A
  greedy group that a separator must follow never gives a digit back: the digit would
  stand where the separator is needed.
\<close>

fun digit_groups :: "(nat \<times> nat) list \<Rightarrow> jsstring \<Rightarrow> nat option" where
  "digit_groups [] s = None"
| "digit_groups [(lo, hi)] s =
     (let ds = take hi (takeWhile is_digit s)
      in if length ds < lo then None else Some (length ds))"
| "digit_groups ((lo, hi) # g # gs) s =
     (let ds = take hi (takeWhile is_digit s)
      in if length ds < lo then None
         else (case drop (length ds) s of
                 [] \<Rightarrow> None
               | c # cs \<Rightarrow>
                   if is_sep c
                   then map_option (\<lambda>n. length ds + 1 + n) (digit_groups (g # gs) cs)
                   else None))"

text \<open>
  \<open>datePattern\<close> at the head of a string: day, month and year with one or two, one or
  two and two to four digits, or else a year of four digits, month and day.
\<close>

definition datePattern_at :: "jsstring \<Rightarrow> jsstring option" where
  "datePattern_at s =
     (case digit_groups [(1, 2), (1, 2), (2, 4)] s of
        Some n \<Rightarrow> Some (take n s)
      | None \<Rightarrow> map_option (\<lambda>n. take n s) (digit_groups [(4, 4), (1, 2), (1, 2)] s))"

text \<open>\<open>line.match(datePattern)\<close>: the leftmost match, \<open>None\<close> for \<open>null\<close>.\<close>

fun datePattern_match :: "jsstring \<Rightarrow> jsstring option" where
  "datePattern_match [] = None"
| "datePattern_match (c # cs) =
     (case datePattern_at (c # cs) of
        Some m \<Rightarrow> Some m
      | None \<Rightarrow> datePattern_match cs)"

text \<open>The loop over the lines stops at the first line with a match.\<close>

fun find_date :: "jsstring list \<Rightarrow> jsstring" where
  "find_date [] = []"
| "find_date (line # lines) =
     (case datePattern_match line of
        Some m \<Rightarrow> m
      | None \<Rightarrow> find_date lines)"

subsection \<open>Items\<close>

definition upper_ascii :: "nat \<Rightarrow> nat" where
  "upper_ascii c = (if is_lower c then c - 32 else c)"

text \<open>
  A keyword at the head of a line under the \<open>i\<close> flag. Without the \<open>u\<close> flag a code
  unit outside ASCII never matches an ASCII letter, so the comparison is that of the
  ASCII upper cases.
\<close>

definition starts_with_ci :: "jsstring \<Rightarrow> jsstring \<Rightarrow> bool" where
  "starts_with_ci line kw = (map upper_ascii (take (length kw) line) = map upper_ascii kw)"

definition nonItemWords :: "jsstring list" where
  "nonItemWords = map str [''total'', ''subtotal'', ''tax'', ''discount'', ''amount'',
     ''date'', ''time'', ''receipt'', ''thank'', ''you'']"

definition starts_with_nonitem :: "jsstring \<Rightarrow> bool" where
  "starts_with_nonitem line = list_ex (starts_with_ci line) nonItemWords"

text \<open>
  The pattern anchored at both ends of the line: one code unit or more, each a digit,
  white space, a currency symbol or a dot.
\<close>

definition only_numbers_or_currency :: "jsstring \<Rightarrow> bool" where
  "only_numbers_or_currency line =
     (line \<noteq> [] \<and> list_all (\<lambda>c. is_digit c \<or> is_space c \<or> is_currency c \<or> c = 46) line)"

definition item_step :: "jsstring \<Rightarrow> jsstring list \<Rightarrow> jsstring list" where
  "item_step line items =
     (if starts_with_nonitem line then items
      else if only_numbers_or_currency line then items
      else if length line < 3 then items
      else if length line > 3 \<and> length line < 100 then items @ [line]
      else items)"

subsection \<open>parseReceiptData\<close>

record parsed_receipt =
  pr_merchant :: jsstring
  pr_amount :: jsnum
  pr_date :: jsstring
  pr_items :: "jsstring list"
  pr_rawText :: jsstring

text \<open>
  The parameter \<open>today\<close> is the extraction date, the value of
  \<open>new Date().toISOString().split('T')[0]\<close>. The one statement that can throw is the
  call of \<open>Math.max\<close>; nothing catches it, and the function then returns no receipt.
\<close>

definition parseReceiptData ::
  "(jsstring \<Rightarrow> jsstring) \<Rightarrow> nat \<Rightarrow> jsstring \<Rightarrow> jsstring \<Rightarrow> js_error + parsed_receipt" where
  "parseReceiptData ulc max_args today text =
     (let lines = receipt_lines text;
          merchant = find_merchant ulc lines;
          amounts = collect_amounts lines
      in case (if length amounts > 0 then Math_max_spread max_args amounts else Inr (Fin 0)) of
           Inl err \<Rightarrow> Inl err
         | Inr amount \<Rightarrow>
             let date = find_date lines;
                 items = fold item_step lines []
             in Inr \<lparr>pr_merchant = (if merchant = [] then str ''Unknown Merchant'' else merchant),
                     pr_amount = amount,
                     pr_date = (if date = [] then today else date),
                     pr_items = take 10 items,
                     pr_rawText = text\<rparr>)"

section \<open>Notions used to state the properties of the receipt parser\<close>

text \<open>
  The numeric tokens of a text: the matches of \<open>amountPattern\<close> in its lines, in order.
\<close>

definition receipt_tokens :: "jsstring \<Rightarrow> jsstring list" where
  "receipt_tokens text = concat (map amountPattern_matches (receipt_lines text))"

text \<open>
  The value of a token, read from the token itself and not through the parser's own
  \<open>parseFloat\<close>: after the currency symbol and the white space, the digits before the
  dot count by their place, and the digits after the dot count as that many tenths,
  hundredths and so on.
\<close>

fun digits_number :: "jsstring \<Rightarrow> nat" where
  "digits_number [] = 0"
| "digits_number (c # cs) = (c - 48) * 10 ^ length cs + digits_number cs"

definition token_value :: "jsstring \<Rightarrow> real" where
  "token_value m =
     (let number = dropWhile (\<lambda>c. \<not> is_digit c) m;
          whole = takeWhile is_digit number;
          fraction = (case dropWhile is_digit number of
                        [] \<Rightarrow> []
                      | c # cs \<Rightarrow> if c = 46 then cs else [])
      in real (digits_number whole) + real (digits_number fraction) / 10 ^ length fraction)"

text \<open>The tokens that \<open>parseReceiptData\<close> passes to \<open>Math.max\<close>: those above zero.\<close>

definition positive_tokens :: "jsstring \<Rightarrow> jsstring list" where
  "positive_tokens text = filter (\<lambda>m. 0 < token_value m) (receipt_tokens text)"

text \<open>
  Example texts: the two lines of the specification; two lines with decimals; a text
  of \<open>n\<close> lines, each the digit 1; and the digit 1 followed by 309 zeros.
\<close>

definition total_subtotal :: jsstring where
  "total_subtotal = str ''Total $45.00'' @ [10] @ str ''Subtotal $40.00''"

definition coffee_and_tip :: jsstring where
  "coffee_and_tip = str ''Coffee 12.75'' @ [10] @ str ''Tip $ 3.5''"

definition numeric_lines :: "nat \<Rightarrow> jsstring" where
  "numeric_lines n = concat (replicate n [49, 10])"

definition huge_number :: jsstring where
  "huge_number = 49 # replicate 309 48"

text \<open>
  The form of a match of \<open>datePattern\<close>: digits and two separators, 6 to 10 code units.
\<close>

definition date_shaped :: "jsstring \<Rightarrow> bool" where
  "date_shaped s =
     (list_all (\<lambda>c. is_digit c \<or> is_sep c) s \<and> length (filter is_sep s) = 2
      \<and> 6 \<le> length s \<and> length s \<le> 10)"

text \<open>
  A string that denotes a calendar date, read generously: three fields of digits between
  separators that give a month from 1 to 12 and a day from 1 to 31 when read as year,
  month, day, or as day, month, year, or as month, day, year.
\<close>

fun split_sep :: "jsstring \<Rightarrow> jsstring \<Rightarrow> jsstring list" where
  "split_sep cur [] = [cur]"
| "split_sep cur (c # cs) =
     (if is_sep c then cur # split_sep [] cs else split_sep (cur @ [c]) cs)"

definition month_day :: "nat \<Rightarrow> nat \<Rightarrow> bool" where
  "month_day m d = (1 \<le> m \<and> m \<le> 12 \<and> 1 \<le> d \<and> d \<le> 31)"

definition is_calendar_date :: "jsstring \<Rightarrow> bool" where
  "is_calendar_date s =
     (case split_sep [] s of
        [a, b, c] \<Rightarrow>
          a \<noteq> [] \<and> b \<noteq> [] \<and> c \<noteq> [] \<and> list_all is_digit (a @ b @ c)
          \<and> (month_day (digits_value b) (digits_value c)
               \<or> month_day (digits_value b) (digits_value a)
               \<or> month_day (digits_value a) (digits_value b))
      | _ \<Rightarrow> False)"

text \<open>
  The condition under which the loop over the lines pushes a line to the items, and the
  condition that the specification gives, which admits the lines of three code units.
\<close>

definition item_line :: "jsstring \<Rightarrow> bool" where
  "item_line line =
     (\<not> starts_with_nonitem line \<and> \<not> only_numbers_or_currency line
      \<and> 3 < length line \<and> length line < 100)"

definition claimed_item_line :: "jsstring \<Rightarrow> bool" where
  "claimed_item_line line =
     (\<not> starts_with_nonitem line \<and> \<not> only_numbers_or_currency line
      \<and> 3 \<le> length line \<and> length line \<le> 99)"

section \<open>The expense collection\<close>

text \<open>
  An expense document, with the fields the services read. A date is a number of
  milliseconds since the epoch, as in a JavaScript \<open>Date\<close>. A user identifier is taken
  as already cast to the identifier type of the store.
\<close>

record expense =
  exp_userId :: nat
  exp_category :: jsstring
  exp_date :: int
  exp_amount :: real

text \<open>
  The store holds the documents; a query that the driver cannot run throws, which is the
  only way into the \<open>catch\<close> blocks of the two services below.
\<close>

record database =
  documents :: "expense list"
  reachable :: bool

datatype error = QueryFailed

text \<open>
  \<open>Expense.find({userId, category, date: {$gte: since}}).sort({date: -1})\<close>: the
  matching documents, latest first.
\<close>

definition matching :: "database \<Rightarrow> nat \<Rightarrow> jsstring \<Rightarrow> int \<Rightarrow> expense list" where
  "matching db userId category since =
     filter (\<lambda>e. exp_userId e = userId \<and> exp_category e = category \<and> since \<le> exp_date e)
       (documents db)"

definition Expense_find :: "database \<Rightarrow> nat \<Rightarrow> jsstring \<Rightarrow> int \<Rightarrow> error + expense list" where
  "Expense_find db userId category since =
     (if reachable db then Inr (rev (sort_key exp_date (matching db userId category since)))
      else Inl QueryFailed)"

text \<open>
  The operators \<open>$year\<close> and \<open>$month\<close> of the aggregation read a date in UTC: the
  year and the month (1 to 12) of the proleptic Gregorian calendar, from the number of
  days since the epoch.
\<close>

definition utc_year_month :: "int \<Rightarrow> int \<times> int" where
  "utc_year_month t =
     (let z = t div 86400000 + 719468;
          era = z div 146097;
          doe = z mod 146097;
          yoe = (doe - doe div 1460 + doe div 36524 - doe div 146096) div 365;
          doy = doe - (365 * yoe + yoe div 4 - yoe div 100);
          mp = (5 * doy + 2) div 153;
          m = (if mp < 10 then mp + 3 else mp - 9);
          y = yoe + era * 400
      in (if m \<le> 2 then y + 1 else y, m))"

record bucket =
  b_year :: int
  b_month :: int
  b_total :: real

text \<open>
  \<open>Expense.aggregate\<close> with its three stages: \<open>$match\<close>, \<open>$group\<close> by year and month
  with the sum of the amounts, \<open>$sort\<close> by year, then month.
\<close>

definition month_buckets :: "expense list \<Rightarrow> bucket list" where
  "month_buckets docs =
     map (\<lambda>k. \<lparr>b_year = fst k, b_month = snd k,
               b_total = fold (\<lambda>e sum. sum + exp_amount e)
                           (filter (\<lambda>e. utc_year_month (exp_date e) = k) docs) 0\<rparr>)
       (remdups (map (\<lambda>e. utc_year_month (exp_date e)) docs))"

definition Expense_aggregate :: "database \<Rightarrow> nat \<Rightarrow> jsstring \<Rightarrow> int \<Rightarrow> error + bucket list" where
  "Expense_aggregate db userId category since =
     (if reachable db
      then Inr (sort_key (\<lambda>b. (b_year b, b_month b))
                  (month_buckets (matching db userId category since)))
      else Inl QueryFailed)"

section \<open>AnomalyDetector\<close>

text \<open>
  The \<open>reason\<close> of a result is one of three fixed texts or the template that reports
  the amount, the z-score and the mean; the formatting of the numbers is not modelled.
\<close>

datatype anomaly_reason =
  Insufficient_data
| Detection_failed
| Normal_spending_pattern
| Deviation real jsnum real

record anomaly_result =
  ar_isAnomaly :: bool
  ar_zScore :: "jsnum option"
  ar_mean :: "real option"
  ar_stdDev :: "real option"
  ar_reason :: anomaly_reason

text \<open>
  The parameter \<open>now\<close> is \<open>Date.now()\<close>. The two divisions by \<open>amounts.length\<close> have a
  divisor of 5 at least; the division by \<open>stdDev\<close> is the one that can meet zero. The
  mean, the variance and the z-score are exact here. In doubles the sum of equal amounts
  such as 0.1 is rounded, their mean can differ from the amount and the deviation from 0;
  the properties below take whole amounts, whose sums are exact, or leave a margin to the
  threshold 2.5.
\<close>

definition detectAnomalies ::
  "database \<Rightarrow> int \<Rightarrow> nat \<Rightarrow> real \<Rightarrow> jsstring \<Rightarrow> anomaly_result" where
  "detectAnomalies db now userId amount category =
     (case Expense_find db userId category (now - 90 * 24 * 60 * 60 * 1000) of
        Inl err \<Rightarrow>
          \<lparr>ar_isAnomaly = False, ar_zScore = None, ar_mean = None, ar_stdDev = None,
           ar_reason = Detection_failed\<rparr>
      | Inr expenses \<Rightarrow>
          if length expenses < 5
          then \<lparr>ar_isAnomaly = False, ar_zScore = None, ar_mean = None, ar_stdDev = None,
                ar_reason = Insufficient_data\<rparr>
          else
            let amounts = map exp_amount expenses;
                mean = fold (\<lambda>val sum. sum + val) amounts 0 / real (length amounts);
                variance = fold (\<lambda>val sum. sum + (val - mean) ^ 2) amounts 0
                             / real (length amounts);
                stdDev = sqrt variance;
                zScore = js_abs (js_div (amount - mean) stdDev);
                isAnomaly = js_gt zScore (Fin (5/2))
            in \<lparr>ar_isAnomaly = isAnomaly, ar_zScore = Some zScore, ar_mean = Some mean,
                ar_stdDev = Some stdDev,
                ar_reason = (if isAnomaly then Deviation amount zScore mean
                             else Normal_spending_pattern)\<rparr>)"

section \<open>ExpenseForecaster\<close>

text \<open>
  A forecast point carries its month as a year and a month (1 to 12); the rendering of
  that month as an ISO date string, which depends on the time zone of the process, is not
  modelled.
\<close>

record forecast_point =
  fp_month :: "int \<times> int"
  fp_predictedAmount :: real

record forecast_result =
  fr_forecast :: "forecast_point list"
  fr_confidence :: jsstring

text \<open>\<open>setMonth(getMonth() + i)\<close> on the first day of a month.\<close>

definition add_months :: "int \<times> int \<Rightarrow> int \<Rightarrow> int \<times> int" where
  "add_months ym i = (let k = fst ym * 12 + (snd ym - 1) + i in (k div 12, k mod 12 + 1))"

text \<open>
  What \<open>forecastExpenses\<close> does with the rows of the aggregation. The divisor of the
  slope is \<open>n * sumXX - sumX * sumX\<close> for the indices \<open>0\<close> to \<open>n - 1\<close>, which is
  positive from two rows on; \<open>n\<close> is 3 at least where it divides.
\<close>

definition forecast_rows :: "bucket list \<Rightarrow> int \<Rightarrow> forecast_result" where
  "forecast_rows expenses months =
     (if length expenses < 3 then \<lparr>fr_forecast = [], fr_confidence = str ''low''\<rparr>
      else
        let data = map (\<lambda>exp. ((b_year exp, b_month exp), b_total exp)) expenses;
            n = length data;
            x = map real [0..<n];
            y = map snd data;
            sumX = fold (\<lambda>val sum. sum + val) x 0;
            sumY = fold (\<lambda>val sum. sum + val) y 0;
            sumXY = fold (\<lambda>i sum. sum + x ! i * y ! i) [0..<n] 0;
            sumXX = fold (\<lambda>val sum. sum + val * val) x 0;
            slope = (real n * sumXY - sumX * sumY) / (real n * sumXX - sumX * sumX);
            intercept = (sumY - slope * sumX) / real n;
            forecast =
              map (\<lambda>i. \<lparr>fp_month = add_months (fst (last data)) i,
                        fp_predictedAmount =
                          max 0 (slope * (real n + real_of_int i - 1) + intercept)\<rparr>)
                [1..months]
        in \<lparr>fr_forecast = forecast,
            fr_confidence =
              (if n \<ge> 6 then str ''high'' else if n \<ge> 3 then str ''medium'' else str ''low'')\<rparr>)"

definition forecastExpenses ::
  "database \<Rightarrow> int \<Rightarrow> nat \<Rightarrow> jsstring \<Rightarrow> int \<Rightarrow> forecast_result" where
  "forecastExpenses db now userId category months =
     (case Expense_aggregate db userId category (now - 12 * 30 * 24 * 60 * 60 * 1000) of
        Inl err \<Rightarrow> \<lparr>fr_forecast = [], fr_confidence = str ''low''\<rparr>
      | Inr expenses \<Rightarrow> forecast_rows expenses months)"

section \<open>Example data\<close>

text \<open>
  A history of five \<open>food\<close> expenses of user 7 with the amounts 10, 12, 11, 13 and 9,
  latest first, among documents of another user and another category.
\<close>

definition history_90 :: database where
  "history_90 =
     \<lparr>documents =
        [\<lparr>exp_userId = 7, exp_category = str ''food'', exp_date = 2000, exp_amount = 13\<rparr>,
         \<lparr>exp_userId = 7, exp_category = str ''food'', exp_date = 5000, exp_amount = 10\<rparr>,
         \<lparr>exp_userId = 8, exp_category = str ''food'', exp_date = 5000, exp_amount = 900\<rparr>,
         \<lparr>exp_userId = 7, exp_category = str ''food'', exp_date = 3000, exp_amount = 11\<rparr>,
         \<lparr>exp_userId = 7, exp_category = str ''food'', exp_date = 1000, exp_amount = 9\<rparr>,
         \<lparr>exp_userId = 7, exp_category = str ''shopping'', exp_date = 5000, exp_amount = 500\<rparr>,
         \<lparr>exp_userId = 7, exp_category = str ''food'', exp_date = 4000, exp_amount = 12\<rparr>],
      reachable = True\<rparr>"

text \<open>
  The trailing window of 90 days as the calendar has it: the expenses of the user in the
  category dated from 90 days before \<open>now\<close> up to \<open>now\<close>. The query of the service
  has the lower bound only.
\<close>

definition trailing_window :: "database \<Rightarrow> nat \<Rightarrow> jsstring \<Rightarrow> int \<Rightarrow> expense list" where
  "trailing_window db userId category now =
     filter (\<lambda>e. exp_userId e = userId \<and> exp_category e = category
                 \<and> now - 90 * 24 * 60 * 60 * 1000 \<le> exp_date e \<and> exp_date e \<le> now)
       (documents db)"

text \<open>
  At the instant \<open>15552000000\<close> (day 180): four \<open>food\<close> expenses of 10 in the last 90
  days and one dated the day after; and five of 10 in the last 90 days with one of 1000
  dated the day after.
\<close>

definition four_and_future :: database where
  "four_and_future =
     \<lparr>documents =
        [\<lparr>exp_userId = 7, exp_category = str ''food'', exp_date = 8000000000, exp_amount = 10\<rparr>,
         \<lparr>exp_userId = 7, exp_category = str ''food'', exp_date = 9000000000, exp_amount = 10\<rparr>,
         \<lparr>exp_userId = 7, exp_category = str ''food'', exp_date = 10000000000, exp_amount = 10\<rparr>,
         \<lparr>exp_userId = 7, exp_category = str ''food'', exp_date = 11000000000, exp_amount = 10\<rparr>,
         \<lparr>exp_userId = 7, exp_category = str ''food'', exp_date = 15638400000, exp_amount = 10\<rparr>],
      reachable = True\<rparr>"

definition five_and_future :: database where
  "five_and_future =
     \<lparr>documents =
        [\<lparr>exp_userId = 7, exp_category = str ''food'', exp_date = 8000000000, exp_amount = 10\<rparr>,
         \<lparr>exp_userId = 7, exp_category = str ''food'', exp_date = 9000000000, exp_amount = 10\<rparr>,
         \<lparr>exp_userId = 7, exp_category = str ''food'', exp_date = 10000000000, exp_amount = 10\<rparr>,
         \<lparr>exp_userId = 7, exp_category = str ''food'', exp_date = 11000000000, exp_amount = 10\<rparr>,
         \<lparr>exp_userId = 7, exp_category = str ''food'', exp_date = 12000000000, exp_amount = 10\<rparr>,
         \<lparr>exp_userId = 7, exp_category = str ''food'', exp_date = 15638400000, exp_amount = 1000\<rparr>],
      reachable = True\<rparr>"

text \<open>Five expenses of the same amount.\<close>

definition constant_history :: database where
  "constant_history =
     \<lparr>documents =
        map (\<lambda>t. \<lparr>exp_userId = 7, exp_category = str ''food'', exp_date = t, exp_amount = 10\<rparr>)
          [1000, 2000, 3000, 4000, 5000],
      reachable = True\<rparr>"

text \<open>
  Four \<open>food\<close> expenses of user 7 in the 90 days before the instant \<open>15552000000\<close>, a
  fifth one a millisecond too old, and documents of another user and another category.
\<close>

definition short_history :: database where
  "short_history =
     \<lparr>documents =
        [\<lparr>exp_userId = 7, exp_category = str ''food'', exp_date = 7776000000, exp_amount = 10\<rparr>,
         \<lparr>exp_userId = 7, exp_category = str ''food'', exp_date = 7776000001, exp_amount = 10\<rparr>,
         \<lparr>exp_userId = 7, exp_category = str ''food'', exp_date = 7776000002, exp_amount = 10\<rparr>,
         \<lparr>exp_userId = 7, exp_category = str ''food'', exp_date = 7776005000, exp_amount = 10\<rparr>,
         \<lparr>exp_userId = 7, exp_category = str ''food'', exp_date = 7775999999, exp_amount = 10\<rparr>,
         \<lparr>exp_userId = 8, exp_category = str ''food'', exp_date = 7776005000, exp_amount = 10\<rparr>,
         \<lparr>exp_userId = 7, exp_category = str ''shopping'', exp_date = 7776005000, exp_amount = 10\<rparr>],
      reachable = True\<rparr>"

text \<open>
  Expenses of user 7 in the category \<open>food\<close>: one on the 15th of each month from
  January to June 2024 (UTC) and a second one in May, with monthly totals 10, 20, 30, 40,
  50 and 1000; and the last three of them alone, in two months.
\<close>

definition spend :: "int \<Rightarrow> real \<Rightarrow> expense" where
  "spend t a = \<lparr>exp_userId = 7, exp_category = str ''food'', exp_date = t, exp_amount = a\<rparr>"


definition two_months :: database where
  "two_months =
     \<lparr>documents =
        [spend 1715731200000 20, spend 1715817600000 30, spend 1718409600000 1000],
      reachable = True\<rparr>"

text \<open>The name \<open>AL\<close> followed by the capital I with dot above.\<close>

definition dotted_name :: jsstring where
  "dotted_name = str ''AL'' @ [304]"

text \<open>
  A value read as approximately \<open>c\<close>: present, finite and within \<open>tol\<close> of \<open>c\<close>.
\<close>

definition near :: "real option \<Rightarrow> real \<Rightarrow> real \<Rightarrow> bool" where
  "near x c tol = (case x of Some v \<Rightarrow> \<bar>v - c\<bar> < tol | None \<Rightarrow> False)"

definition near_num :: "jsnum option \<Rightarrow> real \<Rightarrow> real \<Rightarrow> bool" where
  "near_num x c tol = (case x of Some (Fin v) \<Rightarrow> \<bar>v - c\<bar> < tol | _ \<Rightarrow> False)"

section \<open>Properties of the categorizer\<close>

lemma tfidf_no_words:
  "tfidf_words ulc text = [] \<Longrightarrow> calculateTFIDF ulc text cat = NaN"
  by (simp add: calculateTFIDF_def)

lemma step_no_words:
  "tfidf_words ulc text = [] \<Longrightarrow> categorize_step ulc text amount entry best = best"
  by (simp add: categorize_step_def tfidf_no_words Let_def)

lemma fold_fixed: "(\<And>x. f x b = b) \<Longrightarrow> fold f xs b = b"
  by (induction xs) simp_all

lemma best_match_no_words:
  assumes "tfidf_words ulc (toLowerCase ulc (expenseName @ str '' '' @ notes)) = []"
  shows "best_match ulc expenseName amount notes = (str ''other'', Fin 0)"
  unfolding best_match_def Let_def
  by (rule fold_fixed) (rule step_no_words [OF assms])

text \<open>
  C10, as amended. When the text that \<open>calculateTFIDF\<close> splits (the name, a space and
  the notes, in lower case) has no word of more than two code units, every keyword score
  is \<open>0 / 0\<close>, that is \<open>NaN\<close>, no comparison with it succeeds, and \<open>categorize\<close> still
  returns: the category is \<open>food\<close> for an amount below 20, \<open>shopping\<close> below 100,
  \<open>utilities\<close> below 500 and \<open>other\<close> from 500 on, and the confidence is 0.
\<close>

theorem categorize_without_words:
  assumes "\<forall>word \<in> set (split_nonword []
              (toLowerCase ulc (toLowerCase ulc (expenseName @ str '' '' @ notes)))).
             length word \<le> 2"
  shows "categorize ulc expenseName amount notes =
           \<lparr>cs_category =
              (if amount < 20 then str ''food''
               else if amount < 100 then str ''shopping''
               else if amount < 500 then str ''utilities''
               else str ''other''),
            cs_confidence = Fin 0\<rparr>"
proof -
  have "tfidf_words ulc (toLowerCase ulc (expenseName @ str '' '' @ notes)) = []"
    using assms by (auto simp: tfidf_words_def filter_empty_conv)
  then have "best_match ulc expenseName amount notes = (str ''other'', Fin 0)"
    by (rule best_match_no_words)
  then show ?thesis
    by (simp add: categorize_def js_lt_def amount_band_def)
qed

text \<open>
  Both strings empty, and a text of short words only, with an amount in each band and on
  each border.
\<close>

theorem categorize_without_words_witness:
  "categorize (\<lambda>s. s) [] 15 [] = \<lparr>cs_category = str ''food'', cs_confidence = Fin 0\<rparr>
   \<and> categorize (\<lambda>s. s) [] 20 [] = \<lparr>cs_category = str ''shopping'', cs_confidence = Fin 0\<rparr>
   \<and> categorize (\<lambda>s. s) [] 99 [] = \<lparr>cs_category = str ''shopping'', cs_confidence = Fin 0\<rparr>
   \<and> categorize (\<lambda>s. s) [] 100 [] = \<lparr>cs_category = str ''utilities'', cs_confidence = Fin 0\<rparr>
   \<and> categorize (\<lambda>s. s) (str ''a b'') 499 (str ''! ok'') =
       \<lparr>cs_category = str ''utilities'', cs_confidence = Fin 0\<rparr>
   \<and> categorize (\<lambda>s. s) (str ''a b'') 500 (str ''! ok'') =
       \<lparr>cs_category = str ''other'', cs_confidence = Fin 0\<rparr>"
proof -
  have 1: "split_nonword [] (toLowerCase (\<lambda>s. s) (toLowerCase (\<lambda>s. s) ([] @ str '' '' @ [])))
             = [[], []]"
    by (simp add: toLowerCase_def str_def plain_case_def lower_unit_def is_upper_def
          is_word_def is_digit_def is_lower_def)
  have 2: "split_nonword []
             (toLowerCase (\<lambda>s. s) (toLowerCase (\<lambda>s. s) (str ''a b'' @ str '' '' @ str ''! ok'')))
             = [str ''a'', str ''b'', str ''ok'']"
    by (simp add: toLowerCase_def str_def plain_case_def lower_unit_def is_upper_def
          is_word_def is_digit_def is_lower_def)
  show ?thesis
    using categorize_without_words [of "\<lambda>s. s" "[]" "[]" 15]
      categorize_without_words [of "\<lambda>s. s" "[]" "[]" 20]
      categorize_without_words [of "\<lambda>s. s" "[]" "[]" 99]
      categorize_without_words [of "\<lambda>s. s" "[]" "[]" 100]
      categorize_without_words [of "\<lambda>s. s" "str ''a b''" "str ''! ok''" 499]
      categorize_without_words [of "\<lambda>s. s" "str ''a b''" "str ''! ok''" 500]
    unfolding 1 2 by (simp add: str_def)
qed

subsection \<open>Texts of one word that is no keyword\<close>

lemma keywords_of:
  "map_of categories cat = Some ks \<Longrightarrow> set ks \<subseteq> set (concat (map snd categories))"
  by (auto dest!: map_of_SomeD)

lemma tfidf_one_word:
  assumes "tfidf_words ulc text = [w]" and "w \<notin> set (concat (map snd categories))"
  shows "calculateTFIDF ulc text cat = Fin 0"
proof -
  have "w \<notin> set (case map_of categories cat of Some ks \<Rightarrow> ks | None \<Rightarrow> [])"
  proof (cases "map_of categories cat")
    case None
    then show ?thesis by simp
  next
    case (Some ks)
    from keywords_of [OF Some] assms(2) have "w \<notin> set ks" by blast
    with Some show ?thesis by simp
  qed
  then show ?thesis
    unfolding calculateTFIDF_def assms(1) Let_def by simp
qed

lemma category_names_differ:
  "str ''food'' \<noteq> str ''other''" "str ''transport'' \<noteq> str ''other''"
  "str ''utilities'' \<noteq> str ''other''" "str ''entertainment'' \<noteq> str ''other''"
  "str ''shopping'' \<noteq> str ''other''" "str ''healthcare'' \<noteq> str ''other''"
  "str ''education'' \<noteq> str ''other''"
  "str ''transport'' \<noteq> str ''food''" "str ''utilities'' \<noteq> str ''food''"
  "str ''entertainment'' \<noteq> str ''food''" "str ''shopping'' \<noteq> str ''food''"
  "str ''healthcare'' \<noteq> str ''food''" "str ''education'' \<noteq> str ''food''"
  "str ''food'' \<noteq> str ''transport''" "str ''utilities'' \<noteq> str ''transport''"
  "str ''entertainment'' \<noteq> str ''transport''" "str ''shopping'' \<noteq> str ''transport''"
  "str ''healthcare'' \<noteq> str ''transport''" "str ''education'' \<noteq> str ''transport''"
  "str ''food'' \<noteq> str ''utilities''" "str ''transport'' \<noteq> str ''utilities''"
  "str ''entertainment'' \<noteq> str ''utilities''" "str ''shopping'' \<noteq> str ''utilities''"
  "str ''healthcare'' \<noteq> str ''utilities''" "str ''education'' \<noteq> str ''utilities''"
  "str ''shopping'' \<noteq> str ''food''"
  by (simp_all add: str_def)

text \<open>
  With every keyword score 0 and an amount below 100, \<open>food\<close> takes the lead with its
  bonus and keeps it: no later score is above 0.1 when the amount is also at most 50.
\<close>

lemma best_match_food_bonus:
  assumes "\<And>cat. calculateTFIDF ulc (toLowerCase ulc (expenseName @ str '' '' @ notes)) cat
                  = Fin 0"
    and "amount \<le> 50"
  shows "best_match ulc expenseName amount notes = (str ''food'', Fin (1/10))"
  unfolding best_match_def Let_def categories_def
  using assms(2) by (simp add: categorize_step_def Let_def assms(1) category_names_differ)

lemma words_xyz123:
  "tfidf_words ulc (toLowerCase ulc (str ''xyz123'' @ str '' '' @ [])) = [str ''xyz123'']"
  by (simp add: tfidf_words_def toLowerCase_def str_def plain_case_def lower_unit_def
        is_upper_def is_word_def is_digit_def is_lower_def)

lemma xyz123_no_keyword: "str ''xyz123'' \<notin> set (concat (map snd categories))"
  by (simp add: categories_def str_def)

lemma best_match_xyz123:
  "best_match ulc (str ''xyz123'') 15 [] = (str ''food'', Fin (1/10))"
  by (rule best_match_food_bonus)
    (rule tfidf_one_word [OF words_xyz123 xyz123_no_keyword], simp)

text \<open>
  C8, as amended. \<open>categorize("xyz123", 15, "")\<close> returns the category \<open>food\<close>, with
  confidence 0.2, through the bonus of 0.1 that \<open>food\<close> receives for an amount below 100:
  the best score is 0.1, which is not below 0.1, so the amount-band fallback is not
  taken.
\<close>

theorem categorize_xyz123:
  "best_match ulc (str ''xyz123'') 15 [] = (str ''food'', Fin (1/10))
   \<and> \<not> js_lt (snd (best_match ulc (str ''xyz123'') 15 [])) (Fin (1/10))
   \<and> categorize ulc (str ''xyz123'') 15 [] =
       \<lparr>cs_category = str ''food'', cs_confidence = Fin (1/5)\<rparr>"
  by (simp add: categorize_def best_match_xyz123 js_lt_def)

text \<open>
  C8 as stated has the category come from the fallback, whose guard is a best score
  below 0.1; the guard is false here.
\<close>

theorem categorize_xyz123_fallback_counterexample:
  "\<not> (cs_category (categorize (\<lambda>s. s) (str ''xyz123'') 15 []) = str ''food''
      \<and> js_lt (snd (best_match (\<lambda>s. s) (str ''xyz123'') 15 [])) (Fin (1/10)))"
  by (simp add: best_match_xyz123 js_lt_def)

subsection \<open>A word that appears with the lower case\<close>

lemma dotted_name_raw:
  "split_nonword [] (dotted_name @ str '' '' @ []) = [str ''AL'', []]"
  by (simp add: dotted_name_def str_def is_word_def is_digit_def is_upper_def is_lower_def)

lemma dotted_name_lower:
  "toLowerCase ulc (dotted_name @ str '' '' @ []) = str ''ali'' @ [775] @ str '' ''"
  by (simp add: dotted_name_def toLowerCase_def str_def plain_case_def lower_unit_def
        is_upper_def)

lemma words_dotted_name:
  "tfidf_words ulc (toLowerCase ulc (dotted_name @ str '' '' @ [])) = [str ''ali'']"
  unfolding dotted_name_lower
  by (simp add: tfidf_words_def toLowerCase_def str_def plain_case_def lower_unit_def
        is_upper_def is_word_def is_digit_def is_lower_def)

lemma ali_no_keyword: "str ''ali'' \<notin> set (concat (map snd categories))"
  by (simp add: categories_def str_def)

lemma categorize_dotted_name:
  "categorize ulc dotted_name 50 [] = \<lparr>cs_category = str ''food'', cs_confidence = Fin (1/5)\<rparr>"
proof -
  have "best_match ulc dotted_name 50 [] = (str ''food'', Fin (1/10))"
    by (rule best_match_food_bonus)
      (rule tfidf_one_word [OF words_dotted_name ali_no_keyword], simp)
  then show ?thesis
    by (simp add: categorize_def js_lt_def)
qed

text \<open>
  C10 as stated has its condition on the text as given. The name \<open>AL\<close> followed by the
  capital I with dot above has no word of more than two code units, the dotted letter
  being no word character; in lower case it reads \<open>ali\<close> and a combining dot. With the
  amount 50 the result is \<open>food\<close> with confidence 0.2, not the band \<open>shopping\<close> with
  confidence 0.
\<close>

theorem categorize_raw_words_counterexample:
  "list_all (\<lambda>word. length word \<le> 2) (split_nonword [] (dotted_name @ str '' '' @ []))
   \<and> categorize (\<lambda>s. s) dotted_name 50 [] =
       \<lparr>cs_category = str ''food'', cs_confidence = Fin (1/5)\<rparr>
   \<and> \<not> (cs_category (categorize (\<lambda>s. s) dotted_name 50 []) = str ''shopping''
        \<and> cs_confidence (categorize (\<lambda>s. s) dotted_name 50 []) = Fin 0)"
proof -
  have "list_all (\<lambda>word. length word \<le> 2) (split_nonword [] (dotted_name @ str '' '' @ []))"
    unfolding dotted_name_raw by (simp add: str_def)
  then show ?thesis
    by (simp add: categorize_dotted_name category_names_differ)
qed

section \<open>Properties of the anomaly detector\<close>

lemma fold_plus_sum: "fold (\<lambda>val sum. sum + f val) xs (a::real) = a + sum_list (map f xs)"
  by (induction xs arbitrary: a) simp_all

lemma sum_const:
  "\<forall>e \<in> set es. f e = (v::real) \<Longrightarrow> sum_list (map f es) = real (length es) * v"
  by (induction es) (simp_all add: algebra_simps)

text \<open>
  A history of five expenses or more, all of the amount \<open>v\<close>: the mean is \<open>v\<close>, the
  deviation is 0, and the z-score is \<open>NaN\<close> for the amount \<open>v\<close> and \<open>Infinity\<close> for
  any other.
\<close>

lemma constant_history_result:
  assumes "reachable db"
    and "5 \<le> length (matching db userId category (now - 90 * 24 * 60 * 60 * 1000))"
    and "\<forall>e \<in> set (matching db userId category (now - 90 * 24 * 60 * 60 * 1000)).
           exp_amount e = v"
  shows "detectAnomalies db now userId amount category =
           \<lparr>ar_isAnomaly = (amount \<noteq> v),
            ar_zScore = Some (if amount = v then NaN else PInf),
            ar_mean = Some v, ar_stdDev = Some 0,
            ar_reason = (if amount = v then Normal_spending_pattern
                         else Deviation amount PInf v)\<rparr>"
proof -
  define es where
    "es = rev (sort_key exp_date (matching db userId category (now - 90 * 24 * 60 * 60 * 1000)))"
  have find: "Expense_find db userId category (now - 90 * 24 * 60 * 60 * 1000) = Inr es"
    using assms(1) by (simp add: Expense_find_def es_def)
  have len: "5 \<le> length es" using assms(2) by (simp add: es_def)
  have all: "\<forall>e \<in> set es. exp_amount e = v" using assms(3) by (simp add: es_def)
  have n0: "real (length es) \<noteq> 0" using len by (cases es) simp_all
  have mean: "fold (\<lambda>val sum. sum + val) (map exp_amount es) 0 / real (length es) = v"
    using n0 by (simp add: fold_plus_sum [where f = "\<lambda>x. x", simplified] sum_const [OF all])
  have var: "fold (\<lambda>val sum. sum + (val - v)\<^sup>2) (map exp_amount es) 0 = 0"
    using all
    by (simp add: fold_plus_sum comp_def sum_const [of es "\<lambda>e. (exp_amount e - v)\<^sup>2" 0])
  show ?thesis
    unfolding detectAnomalies_def find
    using len by (simp add: Let_def mean var not_less)
qed

text \<open>
  C6, as amended. With fewer than five expenses of the user in the category dated from 90
  days before \<open>now\<close> on, those dated after \<open>now\<close> counted, \<open>detectAnomalies\<close> returns a
  result that is no anomaly and has no z-score: the \<open>Insufficient data\<close> result when the
  query ran, the \<open>Detection failed\<close> result when it threw.
\<close>

theorem detectAnomalies_insufficient:
  assumes "length (matching db userId category (now - 90 * 24 * 60 * 60 * 1000)) < 5"
  shows "ar_isAnomaly (detectAnomalies db now userId amount category) = False
     \<and> ar_zScore (detectAnomalies db now userId amount category) = None
     \<and> ar_reason (detectAnomalies db now userId amount category) =
         (if reachable db then Insufficient_data else Detection_failed)"
  using assms by (simp add: detectAnomalies_def Expense_find_def)

theorem detectAnomalies_insufficient_witness:
  "length (matching short_history 7 (str ''food'') (15552000000 - 90 * 24 * 60 * 60 * 1000)) = 4
   \<and> ar_isAnomaly (detectAnomalies short_history 15552000000 7 5000 (str ''food'')) = False
   \<and> ar_zScore (detectAnomalies short_history 15552000000 7 5000 (str ''food'')) = None
   \<and> ar_reason (detectAnomalies short_history 15552000000 7 5000 (str ''food''))
       = Insufficient_data"
proof -
  have 1: "length (matching short_history 7 (str ''food'')
              (15552000000 - 90 * 24 * 60 * 60 * 1000)) = 4"
    by (simp add: matching_def short_history_def str_def)
  show ?thesis
    using detectAnomalies_insufficient [of short_history 7 "str ''food''" 15552000000 5000]
    unfolding 1 by (simp add: short_history_def)
qed

text \<open>
  C6 as stated counts the expenses of the trailing 90 days. Four expenses of 10 lie in
  that window and a fifth is dated a day after \<open>now\<close>; the query has no upper bound and
  returns all five, and the amount 50 is an anomaly with an infinite z-score.
\<close>

lemma four_and_future_matching:
  "matching four_and_future 7 (str ''food'') (15552000000 - 90 * 24 * 60 * 60 * 1000)
     = documents four_and_future"
  by (simp add: matching_def four_and_future_def)

lemma four_and_future_result:
  "detectAnomalies four_and_future 15552000000 7 50 (str ''food'') =
     \<lparr>ar_isAnomaly = True, ar_zScore = Some PInf, ar_mean = Some 10, ar_stdDev = Some 0,
      ar_reason = Deviation 50 PInf 10\<rparr>"
  using constant_history_result [of four_and_future 7 "str ''food''" 15552000000 10 50]
  unfolding four_and_future_matching by (simp add: four_and_future_def)

theorem detectAnomalies_future_dated_counterexample:
  "length (trailing_window four_and_future 7 (str ''food'') 15552000000) = 4
   \<and> detectAnomalies four_and_future 15552000000 7 50 (str ''food'') =
       \<lparr>ar_isAnomaly = True, ar_zScore = Some PInf, ar_mean = Some 10, ar_stdDev = Some 0,
        ar_reason = Deviation 50 PInf 10\<rparr>
   \<and> \<not> (ar_isAnomaly (detectAnomalies four_and_future 15552000000 7 50 (str ''food'')) = False
        \<and> ar_zScore (detectAnomalies four_and_future 15552000000 7 50 (str ''food'')) = None)"
proof -
  have "length (trailing_window four_and_future 7 (str ''food'') 15552000000) = 4"
    by (simp add: trailing_window_def four_and_future_def)
  then show ?thesis by (simp add: four_and_future_result)
qed

text \<open>
  C9, as amended. When the query returns five expenses or more (those of the user in the
  category dated from 90 days before \<open>now\<close> on), all of one whole amount \<open>v\<close> whose
  multiples up to their sum are at most \<open>2^53\<close>, the standard deviation is 0 and the
  z-score is \<open>NaN\<close> for the amount \<open>v\<close> and \<open>Infinity\<close> for any other amount: the
  result is an anomaly exactly when the new amount differs from \<open>v\<close>. For such amounts
  the sums and the mean are exact in doubles, so the exact arithmetic of the model is that
  of the code.
\<close>

theorem detectAnomalies_constant_history:
  assumes "reachable db"
    and "5 \<le> length (matching db userId category (now - 90 * 24 * 60 * 60 * 1000))"
    and "\<forall>e \<in> set (matching db userId category (now - 90 * 24 * 60 * 60 * 1000)).
           exp_amount e = real k"
    and "length (matching db userId category (now - 90 * 24 * 60 * 60 * 1000)) * k \<le> 2 ^ 53"
  shows "ar_isAnomaly (detectAnomalies db now userId amount category) = (amount \<noteq> real k)
     \<and> ar_stdDev (detectAnomalies db now userId amount category) = Some 0
     \<and> ar_zScore (detectAnomalies db now userId amount category) =
         Some (if amount = real k then NaN else PInf)"
  by (simp add: constant_history_result [OF assms(1-3)])

lemma constant_matching:
  "matching constant_history 7 (str ''food'') (6000 - 90 * 24 * 60 * 60 * 1000) =
     map (\<lambda>t. \<lparr>exp_userId = 7, exp_category = str ''food'', exp_date = t, exp_amount = 10\<rparr>)
       [1000, 2000, 3000, 4000, 5000]"
  by (simp add: matching_def constant_history_def)

theorem detectAnomalies_constant_history_witness:
  "ar_isAnomaly (detectAnomalies constant_history 6000 7 50 (str ''food''))
   \<and> \<not> ar_isAnomaly (detectAnomalies constant_history 6000 7 10 (str ''food''))"
  using detectAnomalies_constant_history [of constant_history 7 "str ''food''" 6000 10 50]
    detectAnomalies_constant_history [of constant_history 7 "str ''food''" 6000 10 10]
  unfolding constant_matching by (simp add: constant_history_def)

text \<open>
  C9 as stated takes the expenses of the trailing 90 days. Five expenses of 10 lie in
  that window and one of 1000 is dated a day after \<open>now\<close>; the query returns all six,
  the mean is 175, the variance 136125, and the z-score of the amount 50, which differs
  from 10, is about 0.34: no anomaly.
\<close>

lemma five_and_future_find:
  "Expense_find five_and_future 7 (str ''food'') (15552000000 - 90 * 24 * 60 * 60 * 1000) =
     Inr [\<lparr>exp_userId = 7, exp_category = str ''food'', exp_date = 15638400000,
            exp_amount = 1000\<rparr>,
          \<lparr>exp_userId = 7, exp_category = str ''food'', exp_date = 12000000000,
            exp_amount = 10\<rparr>,
          \<lparr>exp_userId = 7, exp_category = str ''food'', exp_date = 11000000000,
            exp_amount = 10\<rparr>,
          \<lparr>exp_userId = 7, exp_category = str ''food'', exp_date = 10000000000,
            exp_amount = 10\<rparr>,
          \<lparr>exp_userId = 7, exp_category = str ''food'', exp_date = 9000000000,
            exp_amount = 10\<rparr>,
          \<lparr>exp_userId = 7, exp_category = str ''food'', exp_date = 8000000000,
            exp_amount = 10\<rparr>]"
  by (simp add: Expense_find_def matching_def five_and_future_def)

lemma five_and_future_result:
  "detectAnomalies five_and_future 15552000000 7 50 (str ''food'') =
     \<lparr>ar_isAnomaly = False, ar_zScore = Some (Fin (125 / sqrt 136125)), ar_mean = Some 175,
      ar_stdDev = Some (sqrt 136125), ar_reason = Normal_spending_pattern\<rparr>"
proof -
  have "(50::real) \<le> sqrt 136125"
    by (rule real_le_rsqrt) simp
  then have small: "\<not> (5/2::real) < 125 / sqrt 136125"
    by (simp add: field_simps)
  show ?thesis
    unfolding detectAnomalies_def five_and_future_find Let_def
    using small by simp
qed

theorem detectAnomalies_window_counterexample:
  "5 \<le> length (trailing_window five_and_future 7 (str ''food'') 15552000000)
   \<and> list_all (\<lambda>e. exp_amount e = 10)
        (trailing_window five_and_future 7 (str ''food'') 15552000000)
   \<and> \<not> ar_isAnomaly (detectAnomalies five_and_future 15552000000 7 50 (str ''food''))"
proof -
  have "trailing_window five_and_future 7 (str ''food'') 15552000000 =
     map (\<lambda>t. \<lparr>exp_userId = 7, exp_category = str ''food'', exp_date = t, exp_amount = 10\<rparr>)
       [8000000000, 9000000000, 10000000000, 11000000000, 12000000000]"
    by (simp add: trailing_window_def five_and_future_def)
  then show ?thesis
    by (simp add: five_and_future_result)
qed

subsection \<open>The history 10, 12, 11, 13, 9 and the amount 20\<close>

lemma sqrt2_bounds: "1.414 < sqrt 2" "sqrt 2 < 1.4143"
proof -
  show "1.414 < sqrt 2" by (rule real_less_rsqrt) (simp add: power2_eq_square)
  show "sqrt 2 < 1.4143" by (rule real_less_lsqrt) (simp_all add: power2_eq_square)
qed

lemma z_bounds: "6.36 < 9 / sqrt 2" "9 / sqrt 2 < 6.37"
proof -
  have pos: "0 < sqrt 2" by simp
  have "6.36 * sqrt 2 < 9" using sqrt2_bounds(2) by simp
  then show "6.36 < 9 / sqrt 2" using pos by (simp add: pos_less_divide_eq)
  have "9 < 6.37 * sqrt 2" using sqrt2_bounds(1) by simp
  then show "9 / sqrt 2 < 6.37" using pos by (simp add: pos_divide_less_eq)
qed

lemma find_history_90:
  "Expense_find history_90 7 (str ''food'') (6000 - 90 * 24 * 60 * 60 * 1000) =
   Inr [\<lparr>exp_userId = 7, exp_category = str ''food'', exp_date = 5000, exp_amount = 10\<rparr>,
        \<lparr>exp_userId = 7, exp_category = str ''food'', exp_date = 4000, exp_amount = 12\<rparr>,
        \<lparr>exp_userId = 7, exp_category = str ''food'', exp_date = 3000, exp_amount = 11\<rparr>,
        \<lparr>exp_userId = 7, exp_category = str ''food'', exp_date = 2000, exp_amount = 13\<rparr>,
        \<lparr>exp_userId = 7, exp_category = str ''food'', exp_date = 1000, exp_amount = 9\<rparr>]"
  by (simp add: Expense_find_def matching_def history_90_def str_def)

lemma detect_values:
  assumes "Expense_find db userId category (now - 90 * 24 * 60 * 60 * 1000) = Inr expenses"
    and "map exp_amount expenses = [10, 12, 11, 13, 9]"
  shows "detectAnomalies db now userId 20 category =
      \<lparr>ar_isAnomaly = True, ar_zScore = Some (Fin (9 / sqrt 2)), ar_mean = Some 11,
       ar_stdDev = Some (sqrt 2), ar_reason = Deviation 20 (Fin (9 / sqrt 2)) 11\<rparr>"
proof -
  have len: "length expenses = 5"
    using arg_cong [OF assms(2), of length] by simp
  have gt: "(5/2::real) < 9 / sqrt 2" using z_bounds(1) by simp
  show ?thesis
    unfolding detectAnomalies_def assms(1) Let_def
    using gt by (simp add: len assms(2))
qed

text \<open>
  C4, as amended. For the history 10, 12, 11, 13, 9 and the new amount 20 the mean is 11,
  the standard deviation is that of the population, the square root of 2 (1.41 to two
  places), the z-score is 9 divided by it (6.36 to two places), and the result is an
  anomaly.
\<close>

theorem detectAnomalies_example:
  assumes "Expense_find db userId category (now - 90 * 24 * 60 * 60 * 1000) = Inr expenses"
    and "map exp_amount expenses = [10, 12, 11, 13, 9]"
  shows "ar_mean (detectAnomalies db now userId 20 category) = Some 11
     \<and> ar_stdDev (detectAnomalies db now userId 20 category) = Some (sqrt 2)
     \<and> ar_zScore (detectAnomalies db now userId 20 category) = Some (Fin (9 / sqrt 2))
     \<and> ar_isAnomaly (detectAnomalies db now userId 20 category)
     \<and> 1.41 < sqrt 2 \<and> sqrt 2 < 1.42 \<and> 6.36 < 9 / sqrt 2 \<and> 9 / sqrt 2 < 6.37"
  using sqrt2_bounds z_bounds by (simp add: detect_values [OF assms])

theorem detectAnomalies_example_witness:
  "ar_mean (detectAnomalies history_90 6000 7 20 (str ''food'')) = Some 11
     \<and> ar_stdDev (detectAnomalies history_90 6000 7 20 (str ''food'')) = Some (sqrt 2)
     \<and> ar_zScore (detectAnomalies history_90 6000 7 20 (str ''food''))
         = Some (Fin (9 / sqrt 2))
     \<and> ar_isAnomaly (detectAnomalies history_90 6000 7 20 (str ''food''))"
  using detectAnomalies_example [OF find_history_90] by simp

text \<open>
  C4 as stated has a standard deviation of about 1.58 and a z-score of about 5.7, the
  values for the sample standard deviation. Even within a tenth and within a half they
  are not the values of the result.
\<close>

theorem detectAnomalies_example_counterexample:
  "\<not> (near (ar_mean (detectAnomalies history_90 6000 7 20 (str ''food''))) 11 0.1
      \<and> near (ar_stdDev (detectAnomalies history_90 6000 7 20 (str ''food''))) 1.58 0.1
      \<and> near_num (ar_zScore (detectAnomalies history_90 6000 7 20 (str ''food''))) 5.7 0.5
      \<and> ar_isAnomaly (detectAnomalies history_90 6000 7 20 (str ''food'')))"
proof -
  have "detectAnomalies history_90 6000 7 20 (str ''food'') =
      \<lparr>ar_isAnomaly = True, ar_zScore = Some (Fin (9 / sqrt 2)), ar_mean = Some 11,
       ar_stdDev = Some (sqrt 2), ar_reason = Deviation 20 (Fin (9 / sqrt 2)) 11\<rparr>"
    by (rule detect_values [OF find_history_90]) simp
  moreover have "\<not> \<bar>sqrt 2 - 1.58\<bar> < 0.1" using sqrt2_bounds by simp
  ultimately show ?thesis by (simp add: near_def)
qed

section \<open>Properties of the forecaster\<close>

lemma example_months:
  "utc_year_month 1705276800000 = (2024, 1)" "utc_year_month 1707955200000 = (2024, 2)"
  "utc_year_month 1710460800000 = (2024, 3)" "utc_year_month 1713139200000 = (2024, 4)"
  "utc_year_month 1715731200000 = (2024, 5)" "utc_year_month 1715817600000 = (2024, 5)"
  "utc_year_month 1718409600000 = (2024, 6)"
  unfolding utc_year_month_def Let_def by simp_all


lemma aggregate_two_months:
  "Expense_aggregate two_months 7 (str ''food'') (1719792000000 - 12 * 30 * 24 * 60 * 60 * 1000)
   = Inr [\<lparr>b_year = 2024, b_month = 5, b_total = 50\<rparr>,
          \<lparr>b_year = 2024, b_month = 6, b_total = 1000\<rparr>]"
  by (simp add: Expense_aggregate_def matching_def two_months_def spend_def month_buckets_def
        example_months)

text \<open>
  C7. When the aggregation over the last twelve months returns fewer than three monthly
  rows, \<open>forecastExpenses\<close> returns the empty forecast with confidence \<open>low\<close>.
\<close>

theorem forecastExpenses_few_months:
  assumes "Expense_aggregate db userId category (now - 12 * 30 * 24 * 60 * 60 * 1000)
             = Inr expenses"
    and "length expenses < 3"
  shows "forecastExpenses db now userId category months =
           \<lparr>fr_forecast = [], fr_confidence = str ''low''\<rparr>"
  unfolding forecastExpenses_def assms(1) using assms(2) by (simp add: forecast_rows_def)

text \<open>Exactly two monthly rows.\<close>

theorem forecastExpenses_few_months_witness:
  "forecastExpenses two_months 1719792000000 7 (str ''food'') 3 =
     \<lparr>fr_forecast = [], fr_confidence = str ''low''\<rparr>"
  using forecastExpenses_few_months [OF aggregate_two_months] by simp

subsection \<open>Six increasing monthly totals\<close>









section \<open>Properties of the receipt parser\<close>

subsection \<open>The tokens and their values\<close>

lemma currency_not_number: "is_currency c \<Longrightarrow> \<not> is_digit c \<and> c \<noteq> 46"
  by (auto simp: is_currency_def is_digit_def)

lemma space_not_number: "is_space c \<Longrightarrow> \<not> is_digit c \<and> c \<noteq> 46"
  by (auto simp: is_space_def is_digit_def)

lemma dot_no_digit: "\<not> is_digit 46"
  by (simp add: is_digit_def)

lemma take_front: "take (length (front @ e) - length e) (front @ e) = front"
  by simp

text \<open>
  A match of \<open>amountPattern\<close>: a currency symbol and white space, then digits, one at
  least, then nothing more or a dot and digits.
\<close>

lemma amountPattern_at_shape:
  assumes "amountPattern_at s = Some (m, rest)"
  shows "\<exists>pre whole tl. m = pre @ whole @ tl
           \<and> (\<forall>c \<in> set pre. \<not> is_digit c \<and> c \<noteq> 46)
           \<and> whole \<noteq> [] \<and> (\<forall>c \<in> set whole. is_digit c)
           \<and> (tl = [] \<or> (\<exists>frac. tl = 46 # frac \<and> (\<forall>c \<in> set frac. is_digit c)))"
proof -
  define a where "a = (case s of [] \<Rightarrow> [] | c # cs \<Rightarrow> if is_currency c then cs else s)"
  define b where "b = dropWhile is_space a"
  define c' where "c' = dropWhile is_digit b"
  define d where "d = (case c' of [] \<Rightarrow> [] | x # xs \<Rightarrow> if x = 46 then xs else c')"
  define e where "e = dropWhile is_digit d"
  have unfolded: "amountPattern_at s =
      (if takeWhile is_digit b = [] then None else Some (take (length s - length e) s, e))"
    unfolding amountPattern_at_def Let_def a_def b_def c'_def d_def e_def by (rule refl)
  from assms have nonempty: "takeWhile is_digit b \<noteq> []"
    and m: "m = take (length s - length e) s"
    unfolding unfolded by (auto split: if_splits)
  obtain p where s: "s = p @ a" and p: "\<forall>c \<in> set p. is_currency c"
  proof (cases s)
    case Nil
    then show ?thesis using that [of "[]"] by (simp add: a_def)
  next
    case (Cons x xs)
    show ?thesis
    proof (cases "is_currency x")
      case True
      then show ?thesis using that [of "[x]"] Cons by (simp add: a_def)
    next
      case False
      then show ?thesis using that [of "[]"] Cons by (simp add: a_def)
    qed
  qed
  define pre where "pre = p @ takeWhile is_space a"
  define whole where "whole = takeWhile is_digit b"
  have pre: "\<forall>c \<in> set pre. \<not> is_digit c \<and> c \<noteq> 46"
    using p currency_not_number space_not_number by (auto simp: pre_def dest: set_takeWhileD)
  have whole: "\<forall>c \<in> set whole. is_digit c"
    by (auto simp: whole_def dest: set_takeWhileD)
  have s': "s = pre @ whole @ c'"
    using s by (simp add: pre_def whole_def b_def c'_def)
  have tail: "\<exists>tl. s = (pre @ whole @ tl) @ e
      \<and> (tl = [] \<or> (\<exists>frac. tl = 46 # frac \<and> (\<forall>c \<in> set frac. is_digit c)))"
  proof (cases c')
    case Nil
    then have "e = []" by (simp add: e_def d_def)
    with Nil s' show ?thesis by simp
  next
    case (Cons x xs)
    have "dropWhile is_digit b = x # xs"
      using Cons by (simp add: c'_def)
    then have x: "\<not> is_digit x"
      using hd_dropWhile [of is_digit b] by fastforce
    show ?thesis
    proof (cases "x = 46")
      case True
      then have "e = dropWhile is_digit xs" by (simp add: e_def d_def Cons)
      then have "xs = takeWhile is_digit xs @ e" by simp
      then have "s = (pre @ whole @ 46 # takeWhile is_digit xs) @ e"
        using s' Cons True by simp
      moreover have "\<forall>c \<in> set (takeWhile is_digit xs). is_digit c"
        by (auto dest: set_takeWhileD)
      ultimately show ?thesis by blast
    next
      case False
      then have "e = c'" using x by (simp add: e_def d_def Cons)
      with s' show ?thesis by simp
    qed
  qed
  then obtain tl where front: "s = (pre @ whole @ tl) @ e"
    and tl: "tl = [] \<or> (\<exists>frac. tl = 46 # frac \<and> (\<forall>c \<in> set frac. is_digit c))"
    by blast
  have "m = pre @ whole @ tl"
    unfolding m by (subst (1 2) front) (rule take_front)
  with pre whole tl nonempty show ?thesis
    unfolding whole_def by blast
qed

lemma digits_value_number: "digits_value ds = digits_number ds"
proof -
  have "fold (\<lambda>c n. 10 * n + (c - 48)) ds a = a * 10 ^ length ds + digits_number ds" for a
    by (induction ds arbitrary: a) (simp_all add: algebra_simps)
  from this [of 0] show ?thesis by (simp add: digits_value_def)
qed

text \<open>What the parser reads from a token is the value of the token, as a double.\<close>

lemma token_parse:
  assumes "amountPattern_at s = Some (m, rest)"
  shows "parseFloat (digits_and_dots m) = to_double (token_value m)"
proof -
  from amountPattern_at_shape [OF assms] obtain pre whole tl
    where m: "m = pre @ whole @ tl"
      and pre: "\<forall>c \<in> set pre. \<not> is_digit c \<and> c \<noteq> 46"
      and ne: "whole \<noteq> []" and whole: "\<forall>c \<in> set whole. is_digit c"
      and tl: "tl = [] \<or> (\<exists>frac. tl = 46 # frac \<and> (\<forall>c \<in> set frac. is_digit c))"
    by blast
  define num where "num = whole @ tl"
  have kept: "digits_and_dots m = num"
    using pre whole tl
    by (auto simp: digits_and_dots_def m num_def filter_empty_conv filter_id_conv)
  have skipped: "dropWhile (\<lambda>c. \<not> is_digit c) m = num"
  proof -
    have "dropWhile (\<lambda>c. \<not> is_digit c) m = dropWhile (\<lambda>c. \<not> is_digit c) (whole @ tl)"
      unfolding m using pre by (simp add: dropWhile_append2)
    also have "\<dots> = whole @ tl"
      using ne whole by (cases whole) simp_all
    finally show ?thesis by (simp add: num_def)
  qed
  have tw: "takeWhile is_digit num = whole"
    using whole tl by (auto simp: num_def takeWhile_append2 dot_no_digit)
  have dw: "dropWhile is_digit num = tl"
    using whole tl by (auto simp: num_def dropWhile_append2 dot_no_digit)
  have code: "parseFloat (digits_and_dots m) =
      to_double (real (digits_number whole)
        + real (digits_number (case tl of [] \<Rightarrow> [] | c # cs \<Rightarrow>
                                 if c = 46 then takeWhile is_digit cs else []))
          / 10 ^ length (case tl of [] \<Rightarrow> [] | c # cs \<Rightarrow>
                                 if c = 46 then takeWhile is_digit cs else []))"
    using ne
    by (simp add: parseFloat_def decimal_value_def int_part_def frac_part_def kept tw dw
          digits_value_number)
  have spec: "token_value m =
      real (digits_number whole)
        + real (digits_number (case tl of [] \<Rightarrow> [] | c # cs \<Rightarrow> if c = 46 then cs else []))
          / 10 ^ length (case tl of [] \<Rightarrow> [] | c # cs \<Rightarrow> if c = 46 then cs else [])"
    by (simp add: token_value_def skipped tw dw Let_def)
  from tl show ?thesis
  proof
    assume "tl = []"
    then show ?thesis by (simp add: code spec)
  next
    assume "\<exists>frac. tl = 46 # frac \<and> (\<forall>c \<in> set frac. is_digit c)"
    then obtain frac where f: "tl = 46 # frac" and digits: "\<forall>c \<in> set frac. is_digit c"
      by blast
    have all: "takeWhile is_digit frac = frac"
      using digits by (simp add: takeWhile_eq_all_conv)
    show ?thesis by (simp add: code spec f all)
  qed
qed

lemma matches_parse:
  "m \<in> set (amountPattern_matches s) \<Longrightarrow>
     parseFloat (digits_and_dots m) = to_double (token_value m)"
proof (induction s rule: amountPattern_matches.induct)
  case 1
  then show ?case by simp
next
  case (2 c cs)
  show ?case
  proof (cases "amountPattern_at (c # cs)")
    case None
    with 2 show ?thesis by simp
  next
    case (Some mr)
    obtain m' rest where mr: "mr = (m', rest)" by (cases mr)
    show ?thesis
    proof (cases "m = m'")
      case True
      with Some mr token_parse show ?thesis by blast
    next
      case False
      with 2(2)[OF Some mr [symmetric]] 2(3) Some mr show ?thesis by simp
    qed
  qed
qed

lemma token_value_nonneg: "0 \<le> token_value m"
  by (simp add: token_value_def Let_def)

subsection \<open>Doubles\<close>

lemma double_overflow_large: "2 ^ 64 \<le> double_overflow"
proof -
  have "(2::real) ^ 1024 = 2 ^ 970 * 2 ^ 54"
    by (simp add: power_add [symmetric])
  then have "double_overflow = 2 ^ 970 * (2 ^ 54 - 1)"
    by (simp add: double_overflow_def algebra_simps)
  moreover have "(2::real) ^ 64 \<le> 2 ^ 970" by (rule power_increasing) simp_all
  moreover have "(1::real) \<le> 2 ^ 54 - 1" by simp
  ultimately show ?thesis
    by (metis mult.right_neutral mult_left_mono order_trans zero_le_numeral zero_le_power)
qed

lemma to_double_small: "v < 2 ^ 64 \<Longrightarrow> to_double v = Fin v"
  using double_overflow_large by (simp add: to_double_def)

lemma to_double_positive: "js_gt (to_double v) (Fin 0) = (0 < v)"
  using double_overflow_large by (auto simp: to_double_def)

lemma js_max_to_double: "js_max (to_double a) (to_double b) = to_double (max a b)"
  by (auto simp: to_double_def max_def)

lemma fold_js_max_to_double:
  "fold (\<lambda>x m. js_max m x) (map to_double xs) (to_double a) = to_double (fold max xs a)"
  by (induction xs arbitrary: a) (simp_all add: js_max_to_double max.commute)

lemma Math_max_to_double:
  "xs \<noteq> [] \<Longrightarrow> Math_max (map to_double xs) = to_double (Max (set xs))"
proof (cases xs)
  case Nil
  then show "xs \<noteq> [] \<Longrightarrow> ?thesis" by simp
next
  case (Cons x ys)
  have first: "js_max NInf (to_double x) = to_double x"
    by (simp add: to_double_def)
  have "Math_max (map to_double (x # ys)) = to_double (fold max ys x)"
    by (simp add: Math_max_def first fold_js_max_to_double)
  also have "fold max ys x = Max (set (x # ys))"
    by (rule Max.set_eq_fold [symmetric])
  finally show ?thesis by (simp only: Cons)
qed

subsection \<open>The amounts\<close>

lemma fold_push_filter:
  "fold (\<lambda>m amounts. let num = f m in if P num then amounts @ [num] else amounts) ms acc
     = acc @ filter P (map f ms)"
  by (induction ms arbitrary: acc) (simp_all add: Let_def)

lemma fold_append_concat:
  "fold (\<lambda>line amounts. amounts @ g line) lines acc = acc @ concat (map g lines)"
  by (induction lines arbitrary: acc) simp_all

lemma collect_amounts_tokens:
  "collect_amounts lines =
     map to_double
       (filter (\<lambda>v. 0 < v) (map token_value (concat (map amountPattern_matches lines))))"
proof -
  have "collect_amounts lines =
      concat (map (\<lambda>line. filter (\<lambda>n. js_gt n (Fin 0))
                 (map (\<lambda>m. parseFloat (digits_and_dots m)) (amountPattern_matches line))) lines)"
    unfolding collect_amounts_def fold_push_filter
    by (simp add: fold_append_concat [where g = "\<lambda>line. filter (\<lambda>n. js_gt n (Fin 0))
                 (map (\<lambda>m. parseFloat (digits_and_dots m)) (amountPattern_matches line))"])
  also have "\<dots> = concat (map (\<lambda>line. map to_double (filter (\<lambda>v. 0 < v)
                 (map token_value (amountPattern_matches line)))) lines)"
  proof -
    have "filter (\<lambda>n. js_gt n (Fin 0)) (map (\<lambda>m. parseFloat (digits_and_dots m)) ms)
            = map to_double (filter (\<lambda>v. 0 < v) (map token_value ms))"
      if "\<forall>m \<in> set ms. parseFloat (digits_and_dots m) = to_double (token_value m)" for ms
      using that by (induction ms) (simp_all add: to_double_positive)
    then show ?thesis
      using matches_parse by (intro arg_cong [where f = concat] map_cong refl) blast
  qed
  also have "\<dots> = map to_double (filter (\<lambda>v. 0 < v)
                       (map token_value (concat (map amountPattern_matches lines))))"
    by (induction lines) simp_all
  finally show ?thesis .
qed

lemma amounts_count:
  "length (collect_amounts (receipt_lines text)) = length (positive_tokens text)"
proof -
  have "length (filter (\<lambda>v. 0 < v) (map token_value ms))
          = length (filter (\<lambda>m. 0 < token_value m) ms)" for ms
    by (induction ms) simp_all
  then show ?thesis
    by (simp add: collect_amounts_tokens positive_tokens_def receipt_tokens_def)
qed

lemma max_of_positive:
  fixes vals :: "real list"
  assumes "\<forall>v \<in> set vals. 0 \<le> v" and "vals \<noteq> []"
  shows "(if filter (\<lambda>v. 0 < v) vals = [] then 0 else Max (set (filter (\<lambda>v. 0 < v) vals)))
           = Max (set vals)"
proof (cases "filter (\<lambda>v. 0 < v) vals = []")
  case True
  then have "\<forall>v \<in> set vals. v = 0"
    using assms(1) by (fastforce simp: filter_empty_conv)
  moreover obtain v vs where "vals = v # vs"
    using assms(2) by (cases vals) auto
  ultimately have "Max (set vals) = 0"
    by (intro Max_eqI) auto
  with True show ?thesis by simp
next
  case False
  define pos where "pos = filter (\<lambda>v. 0 < v) vals"
  have "pos \<noteq> []" using False by (simp only: pos_def not_False_eq_True)
  then have ne: "set pos \<noteq> {}" by simp
  have in_pos: "Max (set pos) \<in> set pos" using ne by (intro Max_in) auto
  then have gt: "0 < Max (set pos)" by (simp add: pos_def)
  have "Max (set vals) = Max (set pos)"
  proof (rule Max_eqI)
    show "finite (set vals)" by simp
    show "Max (set pos) \<in> set vals" using in_pos by (simp add: pos_def)
    fix y assume y: "y \<in> set vals"
    show "y \<le> Max (set pos)"
    proof (cases "0 < y")
      case True
      with y have "y \<in> set pos" by (simp add: pos_def)
      then show ?thesis by (intro Max_ge) auto
    next
      case False
      with gt show ?thesis by simp
    qed
  qed
  with False show ?thesis by (simp add: pos_def)
qed

text \<open>The amount that the parser returns when the call of \<open>Math.max\<close> does not throw.\<close>

lemma amount_of_tokens:
  "(if length (collect_amounts (receipt_lines text)) > 0
    then Math_max (collect_amounts (receipt_lines text)) else Fin 0) =
     (if receipt_tokens text = [] then Fin 0
      else to_double (Max (set (map token_value (receipt_tokens text)))))"
proof -
  define vals where "vals = map token_value (receipt_tokens text)"
  define pos where "pos = filter (\<lambda>v. 0 < v) vals"
  have amounts: "collect_amounts (receipt_lines text) = map to_double pos"
    by (simp add: collect_amounts_tokens pos_def vals_def receipt_tokens_def)
  have nonneg: "\<forall>v \<in> set vals. 0 \<le> v"
    by (auto simp: vals_def token_value_nonneg)
  have zero: "to_double 0 = Fin 0"
    by (simp add: to_double_small)
  have "(if length (collect_amounts (receipt_lines text)) > 0
         then Math_max (collect_amounts (receipt_lines text)) else Fin 0) =
          to_double (if pos = [] then 0 else Max (set pos))"
    by (simp add: amounts Math_max_to_double zero)
  also have "\<dots> = (if vals = [] then Fin 0 else to_double (Max (set vals)))"
  proof (cases "vals = []")
    case True
    then show ?thesis by (simp add: pos_def zero)
  next
    case False
    have "(if pos = [] then 0 else Max (set pos)) = Max (set vals)"
      unfolding pos_def by (rule max_of_positive [OF nonneg False])
    then show ?thesis
      using False by (simp only: if_False)
  qed
  finally show ?thesis by (simp add: vals_def)
qed

subsection \<open>The result of \<open>parseReceiptData\<close>\<close>

lemma fold_item_step: "fold item_step lines acc = acc @ filter item_line lines"
  by (induction lines arbitrary: acc) (auto simp: item_step_def item_line_def)

text \<open>
  The parser throws when the positive tokens are more than the engine takes as arguments,
  and returns this receipt otherwise.
\<close>

lemma parseReceiptData_result:
  "parseReceiptData ulc max_args today text =
     (if max_args < length (positive_tokens text) then Inl RangeError
      else Inr \<lparr>pr_merchant =
                  (if find_merchant ulc (receipt_lines text) = [] then str ''Unknown Merchant''
                   else find_merchant ulc (receipt_lines text)),
                pr_amount =
                  (if receipt_tokens text = [] then Fin 0
                   else to_double (Max (set (map token_value (receipt_tokens text))))),
                pr_date =
                  (if find_date (receipt_lines text) = [] then today
                   else find_date (receipt_lines text)),
                pr_items = take 10 (filter item_line (receipt_lines text)),
                pr_rawText = text\<rparr>)"
proof (cases "length (collect_amounts (receipt_lines text)) > 0")
  case False
  then have no_amounts: "collect_amounts (receipt_lines text) = []" by simp
  then have "length (positive_tokens text) = 0"
    using amounts_count [of "text"] by simp
  moreover have "Fin 0 = (if receipt_tokens text = [] then Fin 0
      else to_double (Max (set (map token_value (receipt_tokens text)))))"
    using amount_of_tokens [of "text"] no_amounts by simp
  ultimately show ?thesis
    using no_amounts by (simp add: parseReceiptData_def Let_def fold_item_step)
next
  case True
  then have some: "collect_amounts (receipt_lines text) \<noteq> []" by auto
  have spread: "Math_max_spread max_args (collect_amounts (receipt_lines text)) =
      (if max_args < length (positive_tokens text) then Inl RangeError
       else Inr (if receipt_tokens text = [] then Fin 0
                 else to_double (Max (set (map token_value (receipt_tokens text))))))"
    using amount_of_tokens [of "text"] True
    by (simp add: Math_max_spread_def amounts_count)
  have "parseReceiptData ulc max_args today text =
      (case Math_max_spread max_args (collect_amounts (receipt_lines text)) of
         Inl err \<Rightarrow> Inl err
       | Inr amount \<Rightarrow>
           Inr \<lparr>pr_merchant =
                  (if find_merchant ulc (receipt_lines text) = [] then str ''Unknown Merchant''
                   else find_merchant ulc (receipt_lines text)),
                pr_amount = amount,
                pr_date =
                  (if find_date (receipt_lines text) = [] then today
                   else find_date (receipt_lines text)),
                pr_items = take 10 (filter item_line (receipt_lines text)),
                pr_rawText = text\<rparr>)"
    using some by (simp add: parseReceiptData_def Let_def fold_item_step split: sum.split)
  then show ?thesis
    unfolding spread by simp
qed

subsection \<open>Example texts\<close>

lemma lines_total_subtotal:
  "receipt_lines total_subtotal = [str ''Total $45.00'', str ''Subtotal $40.00'']"
  by (simp add: total_subtotal_def receipt_lines_def trim_def is_space_def str_def)

lemma tokens_total_subtotal:
  "receipt_tokens total_subtotal = [str ''$45.00'', str ''$40.00'']"
  unfolding receipt_tokens_def lines_total_subtotal
  by (simp add: amountPattern_at_def is_space_def is_digit_def is_currency_def str_def)

lemma lines_coffee_and_tip:
  "receipt_lines coffee_and_tip = [str ''Coffee 12.75'', str ''Tip $ 3.5'']"
  by (simp add: coffee_and_tip_def receipt_lines_def trim_def is_space_def str_def)

lemma tokens_coffee_and_tip:
  "receipt_tokens coffee_and_tip = [str '' 12.75'', str ''$ 3.5'']"
  unfolding receipt_tokens_def lines_coffee_and_tip
  by (simp add: amountPattern_at_def is_space_def is_digit_def is_currency_def str_def)

lemma example_values:
  "token_value (str ''$45.00'') = 45" "token_value (str ''$40.00'') = 40"
  "token_value (str '' 12.75'') = 51 / 4" "token_value (str ''$ 3.5'') = 7 / 2"
  by (simp_all add: token_value_def is_digit_def str_def)

lemma lines_numeric: "receipt_lines (numeric_lines n) = replicate n [49]"
proof -
  have "split_newline [] (numeric_lines n) = replicate n [49] @ [[]]"
    by (induction n) (simp_all add: numeric_lines_def)
  moreover have "trim [49] = [49]" "trim [] = []"
    by (simp_all add: trim_def is_space_def)
  ultimately show ?thesis
    by (simp add: receipt_lines_def)
qed

lemma positive_tokens_numeric: "positive_tokens (numeric_lines n) = replicate n [49]"
proof -
  have "amountPattern_matches [49] = [[49]]"
    by (simp add: amountPattern_at_def is_space_def is_digit_def is_currency_def)
  then have "receipt_tokens (numeric_lines n) = replicate n [49]"
    unfolding receipt_tokens_def lines_numeric by (induction n) simp_all
  moreover have "token_value [49] = 1"
    by (simp add: token_value_def is_digit_def)
  ultimately show ?thesis
    by (simp add: positive_tokens_def)
qed

lemma to_double_unfold: "to_double v = (if v < 2 ^ 1024 - 2 ^ 970 then Fin v else PInf)"
  unfolding to_double_def double_overflow_def by (rule refl)

text \<open>
  More lines with a number than \<open>Math.max\<close> takes as arguments, here each the digit 1:
  the call throws, and \<open>parseReceiptData\<close> returns no receipt.
\<close>

lemma spread_limit_exceeded:
  "parseReceiptData ulc max_args today (numeric_lines (Suc max_args)) = Inl RangeError"
  by (simp add: parseReceiptData_result positive_tokens_numeric)

lemma parse_total_subtotal:
  "2 \<le> max_args \<Longrightarrow>
   parseReceiptData ulc max_args today total_subtotal =
     Inr \<lparr>pr_merchant = str ''Total $45.00'', pr_amount = Fin 45, pr_date = today,
          pr_items = [], pr_rawText = total_subtotal\<rparr>"
proof -
  assume "2 \<le> max_args"
  then have within_limit: "\<not> max_args < length (positive_tokens total_subtotal)"
    by (simp add: positive_tokens_def tokens_total_subtotal example_values)
  have merchant: "find_merchant ulc (receipt_lines total_subtotal) = str ''Total $45.00''"
    unfolding lines_total_subtotal by (simp add: find_merchant_def str_def)
  have date: "find_date (receipt_lines total_subtotal) = []"
    unfolding lines_total_subtotal
    by (simp add: datePattern_at_def is_digit_def is_sep_def str_def)
  have items: "filter item_line (receipt_lines total_subtotal) = []"
    unfolding lines_total_subtotal
    by (simp add: item_line_def starts_with_nonitem_def starts_with_ci_def nonItemWords_def
          upper_ascii_def is_lower_def str_def)
  have amount: "to_double (Max (set (map token_value (receipt_tokens total_subtotal)))) = Fin 45"
    unfolding tokens_total_subtotal
    by (simp add: example_values to_double_small)
  have tokens: "receipt_tokens total_subtotal \<noteq> []"
    by (simp add: tokens_total_subtotal)
  show ?thesis
    unfolding parseReceiptData_result merchant date items amount
    using within_limit tokens by (simp add: str_def)
qed

text \<open>
  C2, as amended. For a text whose tokens above zero are no more than \<open>Math.max\<close> takes
  as arguments, the amount of the parsed receipt is the largest value among the numeric
  tokens of all lines when that value is below \<open>2^1024 - 2^970\<close>, \<open>Infinity\<close> when it
  is not, and 0 when the text has no token. The text of the two lines \<open>Total $45.00\<close>
  and \<open>Subtotal $40.00\<close> gives 45.
\<close>

theorem amount_is_largest_token:
  "(length (positive_tokens text) \<le> max_args \<longrightarrow>
      (\<exists>r. parseReceiptData ulc max_args today text = Inr r
         \<and> pr_amount r =
             (if receipt_tokens text = [] then Fin 0
              else if Max (set (map token_value (receipt_tokens text))) < 2 ^ 1024 - 2 ^ 970
                   then Fin (Max (set (map token_value (receipt_tokens text))))
                   else PInf)))
   \<and> (2 \<le> max_args \<longrightarrow>
        parseReceiptData ulc max_args today total_subtotal =
          Inr \<lparr>pr_merchant = str ''Total $45.00'', pr_amount = Fin 45, pr_date = today,
               pr_items = [], pr_rawText = total_subtotal\<rparr>)"
proof (intro conjI impI)
  assume within_limit: "length (positive_tokens text) \<le> max_args"
  have "\<exists>r. parseReceiptData ulc max_args today text = Inr r
          \<and> pr_amount r =
              (if receipt_tokens text = [] then Fin 0
               else to_double (Max (set (map token_value (receipt_tokens text)))))"
    using within_limit by (simp add: parseReceiptData_result)
  then show "\<exists>r. parseReceiptData ulc max_args today text = Inr r
         \<and> pr_amount r =
             (if receipt_tokens text = [] then Fin 0
              else if Max (set (map token_value (receipt_tokens text))) < 2 ^ 1024 - 2 ^ 970
                   then Fin (Max (set (map token_value (receipt_tokens text))))
                   else PInf)"
    by (simp only: to_double_unfold)
next
  assume "2 \<le> max_args"
  then show "parseReceiptData ulc max_args today total_subtotal =
          Inr \<lparr>pr_merchant = str ''Total $45.00'', pr_amount = Fin 45, pr_date = today,
               pr_items = [], pr_rawText = total_subtotal\<rparr>"
    by (rule parse_total_subtotal)
qed

text \<open>
  With room for 130000 arguments: the lines \<open>Coffee 12.75\<close> and \<open>Tip $ 3.5\<close> have
  two tokens above zero and give 12.75, and the two lines of the specification give 45.
\<close>

theorem amount_is_largest_token_witness:
  "length (positive_tokens coffee_and_tip) \<le> 130000
   \<and> (\<exists>r. parseReceiptData (\<lambda>s. s) 130000 (str ''2026-11-03'') coffee_and_tip = Inr r
       \<and> pr_amount r = Fin (51 / 4))
   \<and> (2::nat) \<le> 130000
   \<and> parseReceiptData (\<lambda>s. s) 130000 (str ''2026-11-03'') total_subtotal =
        Inr \<lparr>pr_merchant = str ''Total $45.00'', pr_amount = Fin 45,
             pr_date = str ''2026-11-03'', pr_items = [], pr_rawText = total_subtotal\<rparr>"
proof -
  have small: "(51 / 4::real) < 2 ^ 1024 - 2 ^ 970"
    using double_overflow_large by (simp add: double_overflow_def)
  have within_limit: "length (positive_tokens coffee_and_tip) \<le> 130000"
    by (simp add: positive_tokens_def tokens_coffee_and_tip)
  show ?thesis
    using amount_is_largest_token [of coffee_and_tip 130000 "\<lambda>s. s" "str ''2026-11-03''"]
      within_limit small
    by (simp add: tokens_coffee_and_tip example_values)
qed

subsection \<open>A line of digits\<close>

lemma digit_facts:
  assumes "is_digit c"
  shows "c \<noteq> 10" "\<not> is_space c" "\<not> is_currency c" "c \<noteq> 46" "\<not> is_upper c"
    "c < 128" "\<not> is_sep c"
  using assms by (simp_all add: is_digit_def is_space_def is_currency_def is_upper_def is_sep_def)

lemma split_newline_digits:
  "list_all is_digit s \<Longrightarrow> split_newline cur s = [cur @ s]"
  by (induction s arbitrary: cur) (auto simp: digit_facts)

lemma dropWhile_space_digits: "list_all is_digit s \<Longrightarrow> dropWhile is_space s = s"
  by (cases s) (simp_all add: digit_facts)

lemma lines_digits:
  assumes "list_all is_digit s" and "s \<noteq> []"
  shows "receipt_lines s = [s]"
proof -
  have "list_all is_digit (rev s)" using assms(1) by (simp add: list_all_iff)
  then have "trim s = s"
    using assms(1) by (simp add: trim_def dropWhile_space_digits)
  then show ?thesis
    using assms by (simp add: receipt_lines_def split_newline_digits)
qed

lemma takeWhile_digits: "list_all is_digit s \<Longrightarrow> takeWhile is_digit s = s"
  by (simp add: list_all_iff)

lemma dropWhile_digits: "list_all is_digit s \<Longrightarrow> dropWhile is_digit s = []"
  by (simp add: list_all_iff)

lemma matches_digits:
  assumes "list_all is_digit s" and "s \<noteq> []"
  shows "amountPattern_matches s = [s]"
proof -
  obtain c cs where s: "s = c # cs" using assms(2) by (cases s) auto
  then have c: "is_digit c" using assms(1) by simp
  have a: "(case s of [] \<Rightarrow> [] | c # cs \<Rightarrow> if is_currency c then cs else s) = s"
    using c by (simp add: s digit_facts)
  have "amountPattern_at s = Some (s, [])"
    unfolding amountPattern_at_def a Let_def
    using assms by (simp add: dropWhile_space_digits takeWhile_digits dropWhile_digits)
  then show ?thesis by (simp add: s)
qed

lemma digits_number_zeros: "digits_number (replicate n 48) = 0"
  by (induction n) simp_all

lemma token_value_digits:
  assumes "list_all is_digit s"
  shows "token_value s = real (digits_number s)"
proof -
  have "dropWhile (\<lambda>c. \<not> is_digit c) s = s"
    using assms by (cases s) simp_all
  then show ?thesis
    using assms by (simp add: token_value_def Let_def takeWhile_digits dropWhile_digits)
qed

lemma digit_groups_digits:
  "list_all is_digit s \<Longrightarrow> digit_groups ((lo, hi) # g # gs) s = None"
proof -
  assume digits: "list_all is_digit s"
  have "\<not> is_sep c" if "drop n s = c # cs" for n c cs
  proof -
    have "c \<in> set (drop n s)" using that by simp
    then have "c \<in> set s" by (rule in_set_dropD)
    then show ?thesis using digits by (simp add: list_all_iff digit_facts)
  qed
  then show ?thesis
    by (simp add: Let_def split: list.split)
qed

lemma no_date_at_digits: "list_all is_digit s \<Longrightarrow> datePattern_at s = None"
  unfolding datePattern_at_def by (simp only: digit_groups_digits) simp

lemma no_date_in_digits: "list_all is_digit s \<Longrightarrow> datePattern_match s = None"
proof (induction s)
  case Nil
  show ?case by simp
next
  case (Cons c cs)
  have "datePattern_at (c # cs) = None"
    using Cons.prems by (rule no_date_at_digits)
  moreover have "datePattern_match cs = None"
    using Cons by simp
  ultimately show ?case by (simp only: datePattern_match.simps option.case)
qed

lemma lower_digits: "list_all is_digit s \<Longrightarrow> toLowerCase ulc s = s"
proof -
  assume digits: "list_all is_digit s"
  then have "list_all plain_case s"
    by (simp add: list_all_iff plain_case_def digit_facts)
  moreover have "concat (map lower_unit s) = s"
    using digits by (induction s) (simp_all add: lower_unit_def digit_facts is_digit_def)
  ultimately show ?thesis by (simp add: toLowerCase_def)
qed

lemma no_word_in_digits:
  assumes "list_all is_digit s" and "word = c # cs" and "\<not> is_digit c"
  shows "\<not> includes_str s word"
  using assms(1)
proof (induction s)
  case Nil
  then show ?case by (simp add: assms(2))
next
  case (Cons d ds)
  then have "d \<noteq> c" using assms(3) by auto
  then have "take (length word) (d # ds) \<noteq> word" by (simp add: assms(2))
  with Cons show ?case by simp
qed

lemma no_merchant_in_digits:
  assumes "list_all is_digit s" and "50 \<le> length s"
  shows "find_merchant ulc [s] = []"
proof -
  have "\<not> includes_str s word" if "word \<in> set businessWords" for word
  proof -
    from that obtain c cs where "word = c # cs" "\<not> is_digit c"
      by (auto simp: businessWords_def str_def is_digit_def)
    then show ?thesis by (rule no_word_in_digits [OF assms(1)])
  qed
  then have "\<not> list_ex (\<lambda>word. includes_str (toLowerCase ulc s) word) businessWords"
    by (simp add: list_ex_iff lower_digits [OF assms(1)])
  then show ?thesis
    using assms(2) by (simp add: find_merchant_def)
qed

lemma huge_number_digits: "list_all is_digit huge_number" "huge_number \<noteq> []"
  "length huge_number = 310"
  by (simp_all add: huge_number_def is_digit_def list_all_iff)

lemma huge_number_value: "token_value huge_number = 10 ^ 309"
  by (simp add: token_value_digits huge_number_digits)
    (simp add: huge_number_def digits_number_zeros)

lemma huge_number_overflow: "to_double (10 ^ 309) = PInf"
  by (simp add: to_double_def double_overflow_def)

lemma parse_huge_number:
  "parseReceiptData ulc max_args today huge_number =
     (if max_args = 0 then Inl RangeError
      else Inr \<lparr>pr_merchant = str ''Unknown Merchant'', pr_amount = PInf, pr_date = today,
                pr_items = [], pr_rawText = huge_number\<rparr>)"
proof -
  have lines: "receipt_lines huge_number = [huge_number]"
    by (rule lines_digits) (rule huge_number_digits)+
  have tokens: "receipt_tokens huge_number = [huge_number]"
    by (simp add: receipt_tokens_def lines matches_digits huge_number_digits)
  have positive: "positive_tokens huge_number = [huge_number]"
    by (simp add: positive_tokens_def tokens huge_number_value)
  have merchant: "find_merchant ulc [huge_number] = []"
    by (rule no_merchant_in_digits) (simp_all add: huge_number_digits)
  have date: "find_date [huge_number] = []"
    by (simp add: no_date_in_digits huge_number_digits)
  have items: "\<not> item_line huge_number"
    by (simp add: item_line_def huge_number_digits)
  have amount: "to_double (Max (set (map token_value [huge_number]))) = PInf"
    by (simp only: list.map list.set Max_singleton huge_number_value huge_number_overflow)
  show ?thesis
    unfolding parseReceiptData_result lines tokens positive merchant date amount
    using items by simp
qed

text \<open>
  C2 as stated gives the largest token as the amount of every text. The text that is the
  digit 1 followed by 309 zeros has one token, of value \<open>10^309\<close>; no double is that
  large, \<open>parseFloat\<close> returns \<open>Infinity\<close>, and that is the amount.
\<close>

theorem amount_overflow_counterexample:
  "receipt_tokens huge_number = [huge_number]
   \<and> Max (set (map token_value (receipt_tokens huge_number))) = 10 ^ 309
   \<and> parseReceiptData (\<lambda>s. s) 130000 (str ''2026-11-03'') huge_number =
       Inr \<lparr>pr_merchant = str ''Unknown Merchant'', pr_amount = PInf,
            pr_date = str ''2026-11-03'', pr_items = [], pr_rawText = huge_number\<rparr>
   \<and> PInf \<noteq> Fin (Max (set (map token_value (receipt_tokens huge_number))))"
proof -
  have "receipt_lines huge_number = [huge_number]"
    by (rule lines_digits) (rule huge_number_digits)+
  then have "receipt_tokens huge_number = [huge_number]"
    by (simp add: receipt_tokens_def matches_digits huge_number_digits)
  then show ?thesis
    by (simp add: huge_number_value parse_huge_number)
qed

subsection \<open>Date\<close>

lemma digit_not_sep: "is_digit c \<Longrightarrow> \<not> is_sep c"
  by (auto simp: is_digit_def is_sep_def)

lemma leading_digits:
  fixes s :: jsstring and hi :: nat
  defines "ds \<equiv> take hi (takeWhile is_digit s)"
  shows "s = ds @ drop (length ds) s" and "list_all is_digit ds" and "length ds \<le> hi"
    and "filter is_sep ds = []"
proof -
  have "take (length ds) s = ds"
    unfolding ds_def
    by (metis append_eq_conv_conj append_take_drop_id takeWhile_dropWhile_id append.assoc)
  then show "s = ds @ drop (length ds) s" by (metis append_take_drop_id)
  show digits: "list_all is_digit ds"
    unfolding ds_def list_all_iff by (auto dest: in_set_takeD set_takeWhileD)
  show "length ds \<le> hi" by (simp add: ds_def)
  show "filter is_sep ds = []"
    using digits by (auto simp: filter_empty_conv list_all_iff digit_not_sep)
qed

lemma digit_groups_shape:
  "digit_groups gs s = Some n \<Longrightarrow>
     list_all (\<lambda>c. is_digit c \<or> is_sep c) (take n s)
     \<and> length (take n s) = n
     \<and> length (filter is_sep (take n s)) = length gs - 1
     \<and> sum_list (map fst gs) + (length gs - 1) \<le> n
     \<and> n \<le> sum_list (map snd gs) + (length gs - 1)"
proof (induction gs s arbitrary: n rule: digit_groups.induct)
  case (1 s)
  then show ?case by simp
next
  case (2 lo hi s)
  define ds where "ds = take hi (takeWhile is_digit s)"
  note ld = leading_digits [where s = s and hi = hi, folded ds_def]
  from 2 have n: "n = length ds" and lo: "lo \<le> length ds"
    by (auto simp: Let_def ds_def split: if_splits)
  have t: "take n s = ds" unfolding n by (subst ld(1)) simp
  show ?case
    unfolding t using ld(2-4) lo n by (auto simp: list_all_iff)
next
  case (3 lo hi g gs s)
  define ds where "ds = take hi (takeWhile is_digit s)"
  note ld = leading_digits [where s = s and hi = hi, folded ds_def]
  have eq: "digit_groups ((lo, hi) # g # gs) s =
      (if length ds < lo then None
       else (case drop (length ds) s of
               [] \<Rightarrow> None
             | c # cs \<Rightarrow>
                 if is_sep c
                 then map_option (\<lambda>n. length ds + 1 + n) (digit_groups (g # gs) cs)
                 else None))"
    by (simp only: digit_groups.simps Let_def ds_def)
  from "3.prems" have lo: "lo \<le> length ds"
    unfolding eq by (simp split: if_splits)
  from "3.prems" lo obtain c cs where rest: "drop (length ds) s = c # cs"
    unfolding eq by (cases "drop (length ds) s") (simp_all split: if_splits)
  from "3.prems" lo have c: "is_sep c"
    unfolding eq rest by (simp split: if_splits)
  from "3.prems" lo c obtain n' where n': "digit_groups (g # gs) cs = Some n'"
    and n: "n = length ds + 1 + n'"
    unfolding eq rest by (auto split: if_splits)
  have s: "s = ds @ c # cs" using ld(1) rest by simp
  have t: "take n s = ds @ c # take n' cs" unfolding n by (subst s) simp
  have lo': "\<not> length (take hi (takeWhile is_digit s)) < lo"
    using lo unfolding ds_def by linarith
  from "3.IH" [OF refl lo' rest [unfolded ds_def] c n']
  have ih: "list_all (\<lambda>c. is_digit c \<or> is_sep c) (take n' cs)" "length (take n' cs) = n'"
      "length (filter is_sep (take n' cs)) = length (g # gs) - 1"
      "sum_list (map fst (g # gs)) + (length (g # gs) - 1) \<le> n'"
      "n' \<le> sum_list (map snd (g # gs)) + (length (g # gs) - 1)"
    by simp_all
  show ?case
    unfolding t using ld(2-4) lo n c ih by (auto simp: list_all_iff)
qed

lemma datePattern_at_shaped:
  assumes "datePattern_at s = Some m"
  shows "date_shaped m"
proof -
  from assms consider n where "digit_groups [(1, 2), (1, 2), (2, 4)] s = Some n" "m = take n s"
    | n where "digit_groups [(4, 4), (1, 2), (1, 2)] s = Some n" "m = take n s"
    unfolding datePattern_at_def by (auto split: option.splits)
  then show ?thesis
  proof cases
    case 1
    from digit_groups_shape [OF 1(1)] show ?thesis
      unfolding date_shaped_def 1(2) by simp
  next
    case 2
    from digit_groups_shape [OF 2(1)] show ?thesis
      unfolding date_shaped_def 2(2) by simp
  qed
qed

lemma datePattern_match_shaped: "datePattern_match s = Some m \<Longrightarrow> date_shaped m"
  by (induction s) (auto split: option.splits dest: datePattern_at_shaped)

lemma find_date_shaped: "find_date lines = [] \<or> date_shaped (find_date lines)"
  by (induction lines) (auto split: option.splits dest: datePattern_match_shaped)

subsection \<open>Items\<close>

subsection \<open>Items\<close>

lemma lines_abc: "receipt_lines (str ''abc'') = [str ''abc'']"
  by (simp add: receipt_lines_def trim_def is_space_def str_def)

lemma abc_survives:
  "\<not> starts_with_nonitem (str ''abc'')" "\<not> only_numbers_or_currency (str ''abc'')"
  "length (str ''abc'') = 3"
  by (simp_all add: starts_with_nonitem_def starts_with_ci_def nonItemWords_def upper_ascii_def
        is_lower_def only_numbers_or_currency_def is_digit_def is_space_def is_currency_def
        str_def)

lemma parse_abc:
  "parseReceiptData ulc max_args today (str ''abc'') =
     Inr \<lparr>pr_merchant = str ''Unknown Merchant'', pr_amount = Fin 0, pr_date = today,
          pr_items = [], pr_rawText = str ''abc''\<rparr>"
proof -
  have tokens: "receipt_tokens (str ''abc'') = []"
    unfolding receipt_tokens_def lines_abc
    by (simp add: amountPattern_at_def is_space_def is_digit_def is_currency_def str_def)
  have merchant: "find_merchant ulc (receipt_lines (str ''abc'')) = []"
    unfolding lines_abc
    by (simp add: find_merchant_def toLowerCase_def plain_case_def lower_unit_def is_upper_def
          businessWords_def str_def)
  have date: "find_date (receipt_lines (str ''abc'')) = []"
    unfolding lines_abc by (simp add: datePattern_at_def is_digit_def str_def)
  have items: "filter item_line (receipt_lines (str ''abc'')) = []"
    unfolding lines_abc by (simp add: item_line_def abc_survives)
  show ?thesis
    unfolding parseReceiptData_result merchant date items
    by (simp add: positive_tokens_def tokens)
qed

text \<open>
  C5. The items of a parsed receipt are the first ten lines that pass the three
  exclusions and have 4 to 99 code units, and no receipt is returned only when
  \<open>Math.max\<close> has thrown: a line of exactly three code units passes the test for short
  lines (\<open>length < 3\<close>) and then fails the test for a product (\<open>length > 3\<close>). The line
  \<open>abc\<close> meets the condition of the specification, and the items of the text \<open>abc\<close>
  are empty.
\<close>

theorem three_character_line_dropped:
  "(case parseReceiptData ulc max_args today text of
      Inl err \<Rightarrow> max_args < length (positive_tokens text)
    | Inr r \<Rightarrow> pr_items r = take 10 (filter item_line (receipt_lines text)))
   \<and> claimed_item_line (str ''abc'')
   \<and> take 10 (filter claimed_item_line (receipt_lines (str ''abc''))) = [str ''abc'']
   \<and> parseReceiptData ulc max_args today (str ''abc'') =
       Inr \<lparr>pr_merchant = str ''Unknown Merchant'', pr_amount = Fin 0, pr_date = today,
            pr_items = [], pr_rawText = str ''abc''\<rparr>"
proof (intro conjI)
  show "case parseReceiptData ulc max_args today text of
      Inl err \<Rightarrow> max_args < length (positive_tokens text)
    | Inr r \<Rightarrow> pr_items r = take 10 (filter item_line (receipt_lines text))"
    by (simp add: parseReceiptData_result)
  show "claimed_item_line (str ''abc'')"
    by (simp add: abc_survives claimed_item_line_def)
  then show "take 10 (filter claimed_item_line (receipt_lines (str ''abc''))) = [str ''abc'']"
    by (simp add: lines_abc)
  show "parseReceiptData ulc max_args today (str ''abc'') =
       Inr \<lparr>pr_merchant = str ''Unknown Merchant'', pr_amount = Fin 0, pr_date = today,
            pr_items = [], pr_rawText = str ''abc''\<rparr>"
    by (rule parse_abc)
qed

subsection \<open>Totality\<close>

lemma lines_99: "receipt_lines (str ''99/99/9999'') = [str ''99/99/9999'']"
  by (simp add: receipt_lines_def trim_def is_space_def str_def)

lemma date_99: "find_date [str ''99/99/9999''] = str ''99/99/9999''"
  by (simp add: datePattern_at_def is_digit_def is_sep_def str_def)

lemma not_date_99: "\<not> is_calendar_date (str ''99/99/9999'')"
  by (simp add: is_calendar_date_def is_sep_def month_day_def digits_value_def str_def)

lemma date_today: "is_calendar_date (str ''2026-11-03'')"
  by (simp add: is_calendar_date_def is_sep_def is_digit_def month_day_def digits_value_def str_def)

lemma tokens_99: "receipt_tokens (str ''99/99/9999'') = [str ''99'', str ''99'', str ''9999'']"
  unfolding receipt_tokens_def lines_99
  by (simp add: amountPattern_at_def is_space_def is_digit_def is_currency_def str_def)

lemma parsed_99:
  "3 \<le> max_args \<Longrightarrow>
   parseReceiptData ulc max_args today (str ''99/99/9999'') =
     Inr \<lparr>pr_merchant = str ''99/99/9999'', pr_amount = Fin 9999,
          pr_date = str ''99/99/9999'', pr_items = [str ''99/99/9999''],
          pr_rawText = str ''99/99/9999''\<rparr>"
proof -
  assume "3 \<le> max_args"
  then have within_limit: "\<not> max_args < length (positive_tokens (str ''99/99/9999''))"
    by (simp add: positive_tokens_def tokens_99)
  have merchant: "find_merchant ulc (receipt_lines (str ''99/99/9999'')) = str ''99/99/9999''"
    unfolding lines_99 by (simp add: find_merchant_def str_def)
  have date: "find_date (receipt_lines (str ''99/99/9999'')) = str ''99/99/9999''"
    unfolding lines_99 by (rule date_99)
  have items: "filter item_line (receipt_lines (str ''99/99/9999'')) = [str ''99/99/9999'']"
    unfolding lines_99
    by (simp add: item_line_def starts_with_nonitem_def starts_with_ci_def nonItemWords_def
          upper_ascii_def is_lower_def only_numbers_or_currency_def is_digit_def is_space_def
          is_currency_def str_def)
  have token_values: "token_value (str ''99'') = 99" "token_value (str ''9999'') = 9999"
    by (simp_all add: token_value_def is_digit_def str_def)
  have amount:
    "to_double (Max (set (map token_value (receipt_tokens (str ''99/99/9999''))))) = Fin 9999"
    unfolding tokens_99 by (simp add: token_values to_double_small)
  have tokens: "receipt_tokens (str ''99/99/9999'') \<noteq> []"
    by (simp add: tokens_99)
  show ?thesis
    unfolding parseReceiptData_result merchant date items amount
    using within_limit tokens by (simp add: str_def)
qed

lemma lines_empty: "receipt_lines [] = []"
  by (simp add: receipt_lines_def trim_def)

lemma unknown_nonempty: "str ''Unknown Merchant'' \<noteq> []"
  by (simp add: str_def)

lemma parse_empty:
  "parseReceiptData ulc max_args today [] =
     Inr \<lparr>pr_merchant = str ''Unknown Merchant'', pr_amount = Fin 0, pr_date = today,
          pr_items = [], pr_rawText = []\<rparr>"
  by (simp add: parseReceiptData_def Let_def lines_empty find_merchant_def collect_amounts_def)

lemma max_token_nonneg:
  "receipt_tokens text \<noteq> [] \<Longrightarrow> 0 \<le> Max (set (map token_value (receipt_tokens text)))"
proof -
  assume "receipt_tokens text \<noteq> []"
  then have "Max (set (map token_value (receipt_tokens text)))
               \<in> set (map token_value (receipt_tokens text))"
    by (intro Max_in) auto
  then show ?thesis
    by (auto simp: token_value_nonneg)
qed

text \<open>
  C1, as amended. For every text whose tokens above zero are no more than \<open>Math.max\<close>
  takes as arguments, the empty text included, \<open>parseReceiptData\<close> returns a receipt
  whose merchant is a non-empty string, whose amount is \<open>Infinity\<close> or a finite number
  that is not negative, whose date is the extraction date or a match of the date pattern
  (digits around two separators, whether or not they denote a date of the calendar), and
  whose items are ten at most. The empty text gives every default.
\<close>

theorem parseReceiptData_total:
  "(length (positive_tokens text) \<le> max_args \<longrightarrow>
      (\<exists>r. parseReceiptData ulc max_args today text = Inr r
         \<and> pr_merchant r \<noteq> []
         \<and> (pr_amount r = PInf \<or> (\<exists>a. pr_amount r = Fin a \<and> 0 \<le> a))
         \<and> (pr_date r = today \<or> date_shaped (pr_date r))
         \<and> length (pr_items r) \<le> 10))
   \<and> parseReceiptData ulc max_args today [] =
        Inr \<lparr>pr_merchant = str ''Unknown Merchant'', pr_amount = Fin 0, pr_date = today,
             pr_items = [], pr_rawText = []\<rparr>"
proof (intro conjI impI)
  assume within_limit: "length (positive_tokens text) \<le> max_args"
  define r where "r =
     \<lparr>pr_merchant =
        (if find_merchant ulc (receipt_lines text) = [] then str ''Unknown Merchant''
         else find_merchant ulc (receipt_lines text)),
      pr_amount =
        (if receipt_tokens text = [] then Fin 0
         else to_double (Max (set (map token_value (receipt_tokens text))))),
      pr_date =
        (if find_date (receipt_lines text) = [] then today
         else find_date (receipt_lines text)),
      pr_items = take 10 (filter item_line (receipt_lines text)),
      pr_rawText = text\<rparr>"
  have result: "parseReceiptData ulc max_args today text = Inr r"
    using within_limit by (simp add: parseReceiptData_result r_def)
  have merchant: "pr_merchant r \<noteq> []"
    by (simp add: r_def unknown_nonempty)
  have amount: "pr_amount r = PInf \<or> (\<exists>a. pr_amount r = Fin a \<and> 0 \<le> a)"
    using max_token_nonneg [of "text"] by (simp add: r_def to_double_def)
  have date: "pr_date r = today \<or> date_shaped (pr_date r)"
    using find_date_shaped [of "receipt_lines text"] by (auto simp: r_def)
  have items: "length (pr_items r) \<le> 10"
    by (simp add: r_def)
  from result merchant amount date items
  show "\<exists>r. parseReceiptData ulc max_args today text = Inr r
         \<and> pr_merchant r \<noteq> []
         \<and> (pr_amount r = PInf \<or> (\<exists>a. pr_amount r = Fin a \<and> 0 \<le> a))
         \<and> (pr_date r = today \<or> date_shaped (pr_date r))
         \<and> length (pr_items r) \<le> 10"
    by blast
next
  show "parseReceiptData ulc max_args today [] =
        Inr \<lparr>pr_merchant = str ''Unknown Merchant'', pr_amount = Fin 0, pr_date = today,
             pr_items = [], pr_rawText = []\<rparr>"
    by (rule parse_empty)
qed

text \<open>
  The text \<open>Coffee 12.75\<close>, \<open>Tip $ 3.5\<close> has two tokens above zero, within any bound
  of an engine; its receipt has the first line as merchant, the amount 12.75 and the
  extraction date.
\<close>

theorem parseReceiptData_total_witness:
  "length (positive_tokens coffee_and_tip) \<le> 130000
   \<and> (\<exists>r. parseReceiptData (\<lambda>s. s) 130000 (str ''2026-11-03'') coffee_and_tip = Inr r
         \<and> pr_merchant r \<noteq> []
         \<and> (pr_amount r = PInf \<or> (\<exists>a. pr_amount r = Fin a \<and> 0 \<le> a))
         \<and> (pr_date r = str ''2026-11-03'' \<or> date_shaped (pr_date r))
         \<and> length (pr_items r) \<le> 10)"
proof -
  have within_limit: "length (positive_tokens coffee_and_tip) \<le> 130000"
    by (simp add: positive_tokens_def tokens_coffee_and_tip)
  with parseReceiptData_total [of coffee_and_tip 130000 "\<lambda>s. s" "str ''2026-11-03''"]
  show ?thesis by blast
qed

text \<open>
  C1 as stated has a valid date in every result. The text \<open>99/99/9999\<close> matches the date
  pattern and is returned as the date; it denotes no date under any reading.
\<close>

theorem parsed_date_counterexample:
  "is_calendar_date (str ''2026-11-03'')
   \<and> parseReceiptData (\<lambda>s. s) 130000 (str ''2026-11-03'') (str ''99/99/9999'') =
       Inr \<lparr>pr_merchant = str ''99/99/9999'', pr_amount = Fin 9999,
            pr_date = str ''99/99/9999'', pr_items = [str ''99/99/9999''],
            pr_rawText = str ''99/99/9999''\<rparr>
   \<and> \<not> is_calendar_date (str ''99/99/9999'')"
  by (simp add: parsed_99 not_date_99 date_today)

end
